theory Spec2Isabelle
  imports Complex_Main "HOL-Library.Sublist"
begin

section \<open>Conventions of the embedding\<close>

text \<open>
  The agents of \<^verbatim>\<open>backend/agents\<close> are embedded as total HOL functions.

  \<^item> A Python \<^verbatim>\<open>float\<close> is a \<^typ>\<open>real\<close>. Scores, ratios and their comparisons are
    read in exact arithmetic, and \<^verbatim>\<open>round(x, 3)\<close> as rounding to the nearest multiple of
    one thousandth, ties to the even one. The threshold products of the intervention agent,
    which \<^verbatim>\<open>int\<close> truncates, are rounded to doubles as the machine rounds them; there a
    float argument is the number the float holds.
  \<^item> A Python \<^verbatim>\<open>str\<close> is a \<^typ>\<open>string\<close>, each \<^typ>\<open>char\<close> standing for the code point of
    the same number (the code points below 256).
  \<^item> A dictionary key that may be missing or hold \<^verbatim>\<open>None\<close> is an \<^typ>\<open>'a option\<close> field.
  \<^item> Library calls whose result the repository only consumes (\<^verbatim>\<open>urlparse\<close>,
    \<^verbatim>\<open>datetime.fromisoformat\<close>, the Gemini client) are parameters of the functions that
    call them.
\<close>

section \<open>Numbers\<close>

text \<open>\<^verbatim>\<open>round(x)\<close> and \<^verbatim>\<open>round(x, 3)\<close>: nearest, ties to even.\<close>

definition round_half_even :: "real \<Rightarrow> int" where
  "round_half_even x =
     (let f = \<lfloor>x\<rfloor>; d = x - of_int f
      in if d < 1/2 then f else if 1/2 < d then f + 1 else if even f then f else f + 1)"

definition round3 :: "real \<Rightarrow> real" where
  "round3 x = of_int (round_half_even (x * 1000)) / 1000"

text \<open>\<^verbatim>\<open>int(x)\<close> on a float: truncation toward zero.\<close>

definition py_int :: "real \<Rightarrow> int" where
  "py_int x = (if 0 \<le> x then \<lfloor>x\<rfloor> else \<lceil>x\<rceil>)"

text \<open>
  Rounding to a double. A double is a multiple of its quantum, the power of two that puts
  the significand between \<open>2^52\<close> and \<open>2^53\<close>; below the smallest normal number
  \<open>2^-1022\<close> the quantum stays at \<open>2^-1074\<close>. \<open>fl x\<close> is the multiple of the quantum of
  \<open>x\<close> nearest to \<open>x\<close>, ties to the even significand: the result of a float operation whose
  exact result is \<open>x\<close>, and the float that a decimal literal \<open>x\<close> denotes. The exponent
  is not bounded here; where the source turns a product into an integer, a rounded value of
  \<open>2^1024\<close> or more is the infinite float (see \<open>int_of_product\<close>).
\<close>

definition min_normal :: real where "min_normal = 1 / 2 ^ 1022"
definition min_quantum :: real where "min_quantum = 1 / 2 ^ 1074"

function quantum :: "real \<Rightarrow> real" where
  "quantum x =
     (if 2 ^ 53 \<le> x then 2 * quantum (x / 2)
      else if 2 ^ 52 \<le> x then 1
      else if 1 \<le> x then quantum (2 * x) / 2
      else if x < min_normal then min_quantum
      else quantum (2 * x) / 2)"
  by pat_completeness auto

definition quantum_measure :: "real \<Rightarrow> nat" where
  "quantum_measure x = (if 2 ^ 53 \<le> x then nat \<lfloor>x\<rfloor> else nat \<lceil>2 ^ 53 / x\<rceil>)"

termination quantum
proof (relation "measure quantum_measure")
  have halve: "quantum_measure (x / 2) < quantum_measure x" if "2 ^ 53 \<le> x" for x :: real
  proof -
    have x: "9007199254740992 \<le> x" using that by simp
    have fx: "9007199254740992 \<le> \<lfloor>x\<rfloor>" using x by (simp add: le_floor_iff)
    have mx: "quantum_measure x = nat \<lfloor>x\<rfloor>" using that by (simp add: quantum_measure_def)
    show ?thesis
    proof (cases "2 ^ 53 \<le> x / 2")
      case True
      have "x / 2 + 1 \<le> x" using x by simp
      then have "\<lfloor>x / 2\<rfloor> < \<lfloor>x\<rfloor>" by linarith
      moreover have "quantum_measure (x / 2) = nat \<lfloor>x / 2\<rfloor>"
        using True by (simp add: quantum_measure_def)
      ultimately show ?thesis using mx fx by linarith
    next
      case False
      have "2 ^ 53 / (x / 2) \<le> (2::real)" using x by (simp add: field_simps)
      then have "\<lceil>2 ^ 53 / (x / 2)\<rceil> \<le> 2" by (simp only: ceiling_le_iff)
      moreover have "quantum_measure (x / 2) = nat \<lceil>2 ^ 53 / (x / 2)\<rceil>"
        using False by (simp add: quantum_measure_def)
      ultimately show ?thesis using mx fx by linarith
    qed
  qed
  have double: "quantum_measure (2 * x) < quantum_measure x"
    if "0 < x" and "x < 2 ^ 52" for x :: real
  proof -
    have x: "x < 4503599627370496" using that by simp
    have m2: "quantum_measure (2 * x) = nat \<lceil>2 ^ 53 / (2 * x)\<rceil>"
      using x by (simp add: quantum_measure_def)
    have m1: "quantum_measure x = nat \<lceil>2 ^ 53 / x\<rceil>"
      using x by (simp add: quantum_measure_def)
    have "2 ^ 53 / x = 2 * (2 ^ 53 / (2 * x))" using that by simp
    moreover have "1 \<le> 2 ^ 53 / (2 * x)" using that x by (simp add: field_simps)
    ultimately have "2 ^ 53 / (2 * x) + 1 \<le> 2 ^ 53 / x" by linarith
    then have "\<lceil>2 ^ 53 / (2 * x)\<rceil> < \<lceil>2 ^ 53 / x\<rceil>" by linarith
    moreover have "0 < \<lceil>2 ^ 53 / x\<rceil>" using that by (simp add: ceiling_less_iff)
    ultimately show ?thesis using m1 m2 by linarith
  qed
  show "wf (measure quantum_measure)" by simp
  show "(x / 2, x) \<in> measure quantum_measure" if "2 ^ 53 \<le> x" for x :: real
    using halve [OF that] by simp
  show "(2 * x, x) \<in> measure quantum_measure"
    if "\<not> 2 ^ 53 \<le> x" and "\<not> 2 ^ 52 \<le> x" and "1 \<le> x" for x :: real
  proof -
    have "0 < x" "x < 2 ^ 52" using that by simp_all
    then show ?thesis using double [of x] by simp
  qed
  show "(2 * x, x) \<in> measure quantum_measure"
    if "\<not> 2 ^ 53 \<le> x" and "\<not> 2 ^ 52 \<le> x" and "\<not> 1 \<le> x" and "\<not> x < min_normal"
    for x :: real
  proof -
    have "0 < min_normal" by (simp add: min_normal_def)
    then have "0 < x" using that(4) by linarith
    moreover have "x < 2 ^ 52" using that(2) by simp
    ultimately show ?thesis using double [of x] by simp
  qed
qed

declare quantum.simps [simp del]

text \<open>The values of \<open>quantum\<close> are powers of two; the predicate serves the proofs only.\<close>

definition pow2 :: "real \<Rightarrow> bool" where
  "pow2 q \<longleftrightarrow> (\<exists>k::int. q = 2 powi k)"

definition fl :: "real \<Rightarrow> real" where
  "fl x = (if x < 0 then - (quantum (- x) * of_int (round_half_even (- x / quantum (- x))))
           else quantum x * of_int (round_half_even (x / quantum x)))"

text \<open>
  \<^verbatim>\<open>int(a * b)\<close> where one factor is a float: the product is rounded to a double; beyond
  the largest double it is the infinite float, on which \<^verbatim>\<open>int\<close> raises
  \<^verbatim>\<open>OverflowError\<close>. An integer factor is converted to a float first, without rounding
  where it is below \<open>2^53\<close> or is itself the integer value of a double, as it is at every
  call in the source.
\<close>

datatype error = OverflowError

definition int_of_product :: "real \<Rightarrow> real \<Rightarrow> error + int" where
  "int_of_product a b =
     (let p = fl (a * b)
      in if 2 ^ 1024 \<le> \<bar>p\<bar> then Inl OverflowError else Inr (py_int p))"

text \<open>An exception ends the call; otherwise the computation goes on with the value.\<close>

definition on_value :: "error + 'a \<Rightarrow> ('a \<Rightarrow> error + 'b) \<Rightarrow> error + 'b" where
  "on_value r f = (case r of Inl e \<Rightarrow> Inl e | Inr v \<Rightarrow> f v)"

section \<open>Context agent: domain catalog\<close>

definition STUDY_DOMAINS :: "string set" where
  "STUDY_DOMAINS = {
     ''scholar.google.com'', ''arxiv.org'', ''ieee.org'', ''ieeexplore.ieee.org'',
     ''acm.org'', ''dl.acm.org'', ''researchgate.net'', ''semanticscholar.org'',
     ''sciencedirect.com'', ''springer.com'', ''jstor.org'',
     ''github.com'', ''gitlab.com'', ''stackoverflow.com'', ''stackexchange.com'',
     ''developer.mozilla.org'', ''docs.python.org'', ''devdocs.io'',
     ''docs.google.com'', ''sheets.google.com'', ''slides.google.com'',
     ''notion.so'', ''overleaf.com'', ''sharelatex.com'',
     ''coursera.org'', ''edx.org'', ''udemy.com'', ''khanacademy.org'',
     ''leetcode.com'', ''hackerrank.com'', ''geeksforgeeks.org'',
     ''mit.edu'', ''ocw.mit.edu'', ''stanford.edu'', ''harvard.edu'',
     ''ox.ac.uk'', ''cam.ac.uk'', ''berkeley.edu''}"

definition MIXED_DOMAINS :: "string set" where
  "MIXED_DOMAINS = {
     ''youtube.com'', ''reddit.com'', ''medium.com'', ''quora.com'',
     ''twitter.com'', ''x.com''}"

definition DISTRACTION_DOMAINS :: "string set" where
  "DISTRACTION_DOMAINS = {
     ''facebook.com'', ''instagram.com'', ''tiktok.com'',
     ''netflix.com'', ''hulu.com'', ''twitch.tv'', ''9gag.com'',
     ''buzzfeed.com'', ''disneyplus.com'', ''primevideo.com''}"

definition ADULT_DOMAINS :: "string set" where
  "ADULT_DOMAINS = {
     ''pornhub.com'', ''xvideos.com'', ''xnxx.com'', ''xhamster.com'',
     ''redtube.com'', ''youporn.com'', ''chaturbate.com'', ''onlyfans.com''}"

text \<open>
  \<^verbatim>\<open>for dd in S: if domain.endswith(f".{dd}"): return v\<close>: every member of the set returns
  the same value, so the loop returns it exactly when some member is such a suffix.
\<close>

definition subdomain_of :: "string set \<Rightarrow> string \<Rightarrow> bool" where
  "subdomain_of S domain \<longleftrightarrow> (\<exists>dd\<in>S. suffix (CHR ''.'' # dd) domain)"

fun score_domain :: "string option \<Rightarrow> real" where
  "score_domain None = 0"
| "score_domain (Some domain) =
     (if domain = [] then 0
      else if domain \<in> ADULT_DOMAINS then -2
      else if domain \<in> STUDY_DOMAINS then 0.8
      else if domain \<in> MIXED_DOMAINS then 0
      else if domain \<in> DISTRACTION_DOMAINS then -0.8
      else if subdomain_of ADULT_DOMAINS domain then -2
      else if subdomain_of STUDY_DOMAINS domain then 0.6
      else if subdomain_of MIXED_DOMAINS domain then 0
      else if subdomain_of DISTRACTION_DOMAINS domain then -0.6
      else 0)"

section \<open>Configuration\<close>

definition NUDGE_THRESHOLD_SECONDS :: int where "NUDGE_THRESHOLD_SECONDS = 30"
definition WARN_THRESHOLD_SECONDS :: int where "WARN_THRESHOLD_SECONDS = 120"
definition SOFT_BLOCK_THRESHOLD_SECONDS :: int where "SOFT_BLOCK_THRESHOLD_SECONDS = 300"
definition HARD_BLOCK_THRESHOLD_SECONDS :: int where "HARD_BLOCK_THRESHOLD_SECONDS = 600"

definition INTERVENTION_LEVELS :: "string \<rightharpoonup> nat" where
  "INTERVENTION_LEVELS =
     [''none'' \<mapsto> 0, ''nudge'' \<mapsto> 1, ''warn'' \<mapsto> 2, ''soft_block'' \<mapsto> 3, ''hard_block'' \<mapsto> 4]"

section \<open>Intervention agent\<close>

text \<open>\<^verbatim>\<open>str(n)\<close> on an integer, as the f-strings of \<^verbatim>\<open>_format_duration\<close> print it.\<close>

definition digit_char :: "nat \<Rightarrow> char" where
  "digit_char d = char_of (48 + d)"

fun str_nat :: "nat \<Rightarrow> string" where
  "str_nat n = (if n < 10 then [digit_char n] else str_nat (n div 10) @ [digit_char (n mod 10)])"

declare str_nat.simps [simp del]

definition str_int :: "int \<Rightarrow> string" where
  "str_int i = (if i < 0 then CHR ''-'' # str_nat (nat (- i)) else str_nat (nat i))"

definition format_duration :: "int \<Rightarrow> string" where
  "format_duration seconds =
     (if seconds < 60 then str_int seconds @ ''s''
      else let minutes = seconds div 60; remaining_secs = seconds mod 60
           in if remaining_secs = 0 then str_int minutes @ ''m''
              else str_int minutes @ ''m '' @ str_int remaining_secs @ ''s'')"

text \<open>
  The message pools hold 3, 2, 2 and 1 templates. A message is kept as the index of the
  template chosen in the pool of the returned level together with the duration text put
  into it (the nudge templates have no place for it); the template wording itself is not part
  of the model. \<open>None\<close> is the empty message.
\<close>

definition NUDGE_MESSAGES_len :: int where "NUDGE_MESSAGES_len = 3"
definition WARN_MESSAGES_len :: int where "WARN_MESSAGES_len = 2"
definition SOFT_BLOCK_MESSAGES_len :: int where "SOFT_BLOCK_MESSAGES_len = 2"
definition HARD_BLOCK_MESSAGES_len :: int where "HARD_BLOCK_MESSAGES_len = 1"

record context_fields =
  cf_classification :: "string option"
  cf_confidence :: "real option"
  cf_context_score :: "real option"

record pattern_fields =
  pf_domain_risk_scores :: "(string \<rightharpoonup> real) option"

record intervention_input =
  context_result :: "context_fields option"
  pattern_result :: "pattern_fields option"
  time_on_current_seconds :: int
  iv_current_domain :: "string option"
  iv_session_active :: bool
  total_distraction_seconds_today :: int
  interventions_today :: int

record decision =
  should_intervene :: bool
  level :: string
  message :: "(int \<times> string option) option"
  urgency :: real
  cooldown_seconds :: int

text \<open>\<^verbatim>\<open>context.get("classification", "neutral")\<close> and \<^verbatim>\<open>context.get("confidence", 0.0)\<close>
  on \<^verbatim>\<open>data.get("context_result", {})\<close>.\<close>

definition get_classification :: "intervention_input \<Rightarrow> string" where
  "get_classification data =
     (case context_result data of None \<Rightarrow> ''neutral''
      | Some context \<Rightarrow> (case cf_classification context of None \<Rightarrow> ''neutral'' | Some c \<Rightarrow> c))"

definition get_confidence :: "intervention_input \<Rightarrow> real" where
  "get_confidence data =
     (case context_result data of None \<Rightarrow> 0
      | Some context \<Rightarrow> (case cf_confidence context of None \<Rightarrow> 0 | Some c \<Rightarrow> c))"

text \<open>\<^verbatim>\<open>pattern.get("domain_risk_scores", {}).get(current_domain, 0.5)\<close>.\<close>

definition get_domain_risk :: "intervention_input \<Rightarrow> real" where
  "get_domain_risk data =
     (case pattern_result data of None \<Rightarrow> 0.5
      | Some pattern \<Rightarrow>
          (case pf_domain_risk_scores pattern of None \<Rightarrow> 0.5
           | Some scores \<Rightarrow>
               (case iv_current_domain data of None \<Rightarrow> 0.5
                | Some d \<Rightarrow> (case scores d of None \<Rightarrow> 0.5 | Some r \<Rightarrow> r))))"

text \<open>
  \<^verbatim>\<open>max(0.5, 1.0 - (domain_risk * 0.5))\<close>, in float arithmetic: the product and the
  difference are each rounded. Halving being exact, a risk written as a decimal such as 0.9
  gives the same rounded product as the float of that literal.
\<close>

definition risk_multiplier :: "intervention_input \<Rightarrow> real" where
  "risk_multiplier data = max 0.5 (fl (1.0 - fl (get_domain_risk data * 0.5)))"

text \<open>
  The adjusted thresholds (nudge, warn, soft block, hard block) of a call: each base threshold
  times the risk multiplier as an integer, and in a session each of these integers times the
  float 0.7 as an integer again.
\<close>

definition adjusted_thresholds :: "intervention_input \<Rightarrow> error + (int \<times> int \<times> int \<times> int)" where
  "adjusted_thresholds data =
     (let risk_multiplier = risk_multiplier data
      in on_value (int_of_product (of_int NUDGE_THRESHOLD_SECONDS) risk_multiplier)
           (\<lambda>adjusted_nudge.
         on_value (int_of_product (of_int WARN_THRESHOLD_SECONDS) risk_multiplier)
           (\<lambda>adjusted_warn.
         on_value (int_of_product (of_int SOFT_BLOCK_THRESHOLD_SECONDS) risk_multiplier)
           (\<lambda>adjusted_soft.
         on_value (int_of_product (of_int HARD_BLOCK_THRESHOLD_SECONDS) risk_multiplier)
           (\<lambda>adjusted_hard.
         if iv_session_active data
         then on_value (int_of_product (of_int adjusted_nudge) (fl 0.7)) (\<lambda>adjusted_nudge.
              on_value (int_of_product (of_int adjusted_warn) (fl 0.7)) (\<lambda>adjusted_warn.
              on_value (int_of_product (of_int adjusted_soft) (fl 0.7)) (\<lambda>adjusted_soft.
              on_value (int_of_product (of_int adjusted_hard) (fl 0.7)) (\<lambda>adjusted_hard.
                Inr (adjusted_nudge, adjusted_warn, adjusted_soft, adjusted_hard)))))
         else Inr (adjusted_nudge, adjusted_warn, adjusted_soft, adjusted_hard))))))"

definition intervention_analyze :: "intervention_input \<Rightarrow> error + decision" where
  "intervention_analyze data =
     (let time_on_current = time_on_current_seconds data;
          classification = get_classification data;
          confidence = get_confidence data
      in if classification \<noteq> ''distraction'' \<or> confidence < 0.3
         then Inr \<lparr>should_intervene = False, level = ''none'', message = None,
                   urgency = 0.0, cooldown_seconds = 30\<rparr>
         else
           on_value (adjusted_thresholds data)
             (\<lambda>(adjusted_nudge, adjusted_warn, adjusted_soft, adjusted_hard).
                let duration_str = format_duration time_on_current
                in if time_on_current \<ge> adjusted_hard
                   then Inr \<lparr>should_intervene = True, level = ''hard_block'',
                         message = Some (interventions_today data mod HARD_BLOCK_MESSAGES_len,
                                         Some duration_str),
                         urgency = 1.0, cooldown_seconds = 0\<rparr>
                   else if time_on_current \<ge> adjusted_soft
                   then Inr \<lparr>should_intervene = True, level = ''soft_block'',
                         message = Some (interventions_today data mod SOFT_BLOCK_MESSAGES_len,
                                         Some duration_str),
                         urgency = 0.8, cooldown_seconds = 15\<rparr>
                   else if time_on_current \<ge> adjusted_warn
                   then Inr \<lparr>should_intervene = True, level = ''warn'',
                         message = Some (interventions_today data mod WARN_MESSAGES_len,
                                         Some duration_str),
                         urgency = 0.6, cooldown_seconds = 30\<rparr>
                   else if time_on_current \<ge> adjusted_nudge
                   then Inr \<lparr>should_intervene = True, level = ''nudge'',
                         message = Some (interventions_today data mod NUDGE_MESSAGES_len, None),
                         urgency = 0.3, cooldown_seconds = 60\<rparr>
                   else Inr \<lparr>should_intervene = False, level = ''none'', message = None,
                         urgency = 0.0,
                         cooldown_seconds = max 5 (adjusted_nudge - time_on_current)\<rparr>))"

text \<open>
  One adjusted threshold as the code computes it: the float product of the base threshold
  and the risk multiplier, truncated to an integer, and in a session the float product of
  that integer and 0.7, truncated again.
\<close>

definition adjusted_threshold :: "int \<Rightarrow> intervention_input \<Rightarrow> error + int" where
  "adjusted_threshold base data =
     on_value (int_of_product (of_int base) (risk_multiplier data))
       (\<lambda>a. if iv_session_active data then int_of_product (of_int a) (fl 0.7) else Inr a)"

text \<open>
  The reading of the specification's sentence on thresholds, in its own words: each base
  threshold multiplied by the risk multiplier and, in a session, by 0.7; the level is the
  highest one whose threshold the dwell time meets.
\<close>

definition claimed_threshold :: "int \<Rightarrow> intervention_input \<Rightarrow> real" where
  "claimed_threshold base data =
     of_int base * max 0.5 (1 - get_domain_risk data * 0.5) * (if iv_session_active data then 0.7 else 1)"

definition claimed_level :: "intervention_input \<Rightarrow> string" where
  "claimed_level data =
     (let t = of_int (time_on_current_seconds data)
      in if t \<ge> claimed_threshold HARD_BLOCK_THRESHOLD_SECONDS data then ''hard_block''
         else if t \<ge> claimed_threshold SOFT_BLOCK_THRESHOLD_SECONDS data then ''soft_block''
         else if t \<ge> claimed_threshold WARN_THRESHOLD_SECONDS data then ''warn''
         else if t \<ge> claimed_threshold NUDGE_THRESHOLD_SECONDS data then ''nudge''
         else ''none'')"

text \<open>Sample calls, after \<^verbatim>\<open>tests/test_agents.py\<close>.\<close>

definition dwell16 :: intervention_input where
  "dwell16 = \<lparr>context_result = Some \<lparr>cf_classification = Some ''distraction'',
                 cf_confidence = Some 0.8, cf_context_score = Some (-0.7)\<rparr>,
     pattern_result = Some \<lparr>pf_domain_risk_scores = Some [''youtube.com'' \<mapsto> 0.9]\<rparr>,
     time_on_current_seconds = 16, iv_current_domain = Some ''youtube.com'',
     iv_session_active = False, total_distraction_seconds_today = 100,
     interventions_today = 0\<rparr>"

definition session62 :: intervention_input where
  "session62 = \<lparr>context_result = Some \<lparr>cf_classification = Some ''distraction'',
                 cf_confidence = Some 0.8, cf_context_score = Some (-0.7)\<rparr>,
     pattern_result = Some \<lparr>pf_domain_risk_scores = Some Map.empty\<rparr>,
     time_on_current_seconds = 62, iv_current_domain = Some ''youtube.com'',
     iv_session_active = True, total_distraction_seconds_today = 0,
     interventions_today = 0\<rparr>"

definition study_page :: intervention_input where
  "study_page = \<lparr>context_result = Some \<lparr>cf_classification = Some ''study'',
                 cf_confidence = Some 0.8, cf_context_score = Some 0.7\<rparr>,
     pattern_result = Some \<lparr>pf_domain_risk_scores = Some Map.empty\<rparr>,
     time_on_current_seconds = 60, iv_current_domain = Some ''github.com'',
     iv_session_active = True, total_distraction_seconds_today = 0,
     interventions_today = 0\<rparr>"

section \<open>Pattern agent\<close>

definition PA_DISTRACTION_DOMAINS :: "string set" where
  "PA_DISTRACTION_DOMAINS = {
     ''youtube.com'', ''facebook.com'', ''twitter.com'', ''x.com'',
     ''instagram.com'', ''tiktok.com'', ''reddit.com'', ''netflix.com'',
     ''hulu.com'', ''twitch.tv'', ''9gag.com'', ''buzzfeed.com''}"

text \<open>\<^verbatim>\<open>str.lower()\<close> on the code points below 256.\<close>

definition lower_char :: "char \<Rightarrow> char" where
  "lower_char c =
     (let n = of_char c :: nat
      in if (65 \<le> n \<and> n \<le> 90) \<or> (192 \<le> n \<and> n \<le> 222 \<and> n \<noteq> 215)
         then char_of (n + 32) else c)"

definition lower :: "string \<Rightarrow> string" where
  "lower s = map lower_char s"

text \<open>
  \<^verbatim>\<open>_extract_domain\<close>. The parameter \<open>urlparse_hostname\<close> stands for
  \<^verbatim>\<open>urlparse(url).hostname\<close>; it is \<open>None\<close> where the library gives \<^verbatim>\<open>None\<close> or raises
  (both end in the result \<^verbatim>\<open>None\<close>).
\<close>

definition extract_domain :: "(string \<Rightarrow> string option) \<Rightarrow> string option \<Rightarrow> string option" where
  "extract_domain urlparse_hostname url =
     (case url of None \<Rightarrow> None
      | Some u \<Rightarrow>
          if u = [] then None
          else let host = (case urlparse_hostname u of None \<Rightarrow> [] | Some h \<Rightarrow> h);
                   host = (if prefix ''www.'' host then drop 4 host else host)
               in if lower host = [] then None else Some (lower host))"

text \<open>\<^verbatim>\<open>a or b\<close> on optional strings: the first one that is neither \<^verbatim>\<open>None\<close> nor empty.\<close>

definition str_or :: "string option \<Rightarrow> string option \<Rightarrow> string option" where
  "str_or a b = (case a of None \<Rightarrow> b | Some x \<Rightarrow> if x = [] then b else Some x)"

text \<open>
  \<^verbatim>\<open>_hour_bucket\<close>. The parameter \<open>fromisoformat_hour\<close> stands for
  \<^verbatim>\<open>datetime.fromisoformat(str(timestamp)).hour\<close>, \<open>None\<close> where the library raises.
\<close>

definition hour_bucket :: "(string \<Rightarrow> nat option) \<Rightarrow> string option \<Rightarrow> nat option" where
  "hour_bucket fromisoformat_hour timestamp =
     (case timestamp of None \<Rightarrow> None
      | Some ts \<Rightarrow> if ts = [] then None else fromisoformat_hour ts)"

record event =
  ev_url :: "string option"
  ev_domain :: "string option"
  ev_title :: "string option"
  ev_duration_seconds :: "int option"
  ev_timestamp :: "string option"
  ev_is_distraction :: bool
  ev_category :: "string option"

text \<open>\<^verbatim>\<open>ev.get("domain") or _extract_domain(ev.get("url"))\<close>.\<close>

definition event_domain :: "(string \<Rightarrow> string option) \<Rightarrow> event \<Rightarrow> string option" where
  "event_domain urlparse_hostname ev =
     str_or (ev_domain ev) (extract_domain urlparse_hostname (ev_url ev))"

text \<open>\<^verbatim>\<open>max(0, int(ev.get("duration_seconds", 0)))\<close>.\<close>

definition event_duration :: "event \<Rightarrow> int" where
  "event_duration ev = max 0 (case ev_duration_seconds ev of None \<Rightarrow> 0 | Some d \<Rightarrow> d)"

text \<open>
  Dictionaries keep the order in which their keys were first inserted, so a dictionary that
  is iterated is a list of pairs with distinct keys. \<open>dict_add k v\<close> is
  \<^verbatim>\<open>d[k] += v\<close> on a \<^verbatim>\<open>defaultdict(int)\<close> or a \<^verbatim>\<open>Counter\<close>,
  \<open>dict_get\<close> is \<^verbatim>\<open>d.get(k, 0)\<close>.
\<close>

fun dict_add :: "'k \<Rightarrow> int \<Rightarrow> ('k \<times> int) list \<Rightarrow> ('k \<times> int) list" where
  "dict_add k v [] = [(k, v)]"
| "dict_add k v ((k', c) # d) = (if k' = k then (k', c + v) # d else (k', c) # dict_add k v d)"

fun dict_get :: "('k \<times> int) list \<Rightarrow> 'k \<Rightarrow> int" where
  "dict_get [] k = 0"
| "dict_get ((k', c) # d) k = (if k' = k then c else dict_get d k)"

text \<open>\<^verbatim>\<open>d[k].append(v)\<close> on a \<^verbatim>\<open>defaultdict(list)\<close>.\<close>

fun dict_append :: "'k \<Rightarrow> 'v \<Rightarrow> ('k \<times> 'v list) list \<Rightarrow> ('k \<times> 'v list) list" where
  "dict_append k v [] = [(k, [v])]"
| "dict_append k v ((k', vs) # d) =
     (if k' = k then (k', vs @ [v]) # d else (k', vs) # dict_append k v d)"

text \<open>
  \<^verbatim>\<open>Counter.most_common(n)\<close>: the \<open>n\<close> entries of highest count, highest first, entries of
  equal count in the order of their insertion.
\<close>

definition most_common :: "nat \<Rightarrow> ('k \<times> int) list \<Rightarrow> ('k \<times> int) list" where
  "most_common n counter = take n (sort_key (\<lambda>(k, c). - c) counter)"

text \<open>
  \<^verbatim>\<open>is_distr = ev.get("is_distraction") or (domain and domain in DISTRACTION_DOMAINS)\<close>
  followed by the test \<^verbatim>\<open>is_distr and domain\<close>.
\<close>

definition distraction_domain :: "(string \<Rightarrow> string option) \<Rightarrow> event \<Rightarrow> string option" where
  "distraction_domain urlparse_hostname ev =
     (case event_domain urlparse_hostname ev of None \<Rightarrow> None
      | Some domain \<Rightarrow>
          if (ev_is_distraction ev \<or> domain \<in> PA_DISTRACTION_DOMAINS) \<and> domain \<noteq> []
          then Some domain else None)"

text \<open>The ordered domain sequence of the distraction events.\<close>

definition distraction_sequence :: "(string \<Rightarrow> string option) \<Rightarrow> event list \<Rightarrow> string list" where
  "distraction_sequence urlparse_hostname events =
     List.map_filter (distraction_domain urlparse_hostname) events"

text \<open>The pairs and triples at the positions \<open>i\<close>, \<open>i + 1\<close> (and \<open>i + 2\<close>) of a sequence.\<close>

fun pairs_of :: "'a list \<Rightarrow> ('a \<times> 'a) list" where
  "pairs_of (a # b # xs) = (a, b) # pairs_of (b # xs)"
| "pairs_of _ = []"

fun triples_of :: "'a list \<Rightarrow> ('a \<times> 'a \<times> 'a) list" where
  "triples_of (a # b # c # xs) = (a, b, c) # triples_of (b # c # xs)"
| "triples_of _ = []"

definition count_all :: "'k list \<Rightarrow> ('k \<times> int) list" where
  "count_all ks = fold (\<lambda>k. dict_add k 1) ks []"

definition detect_distraction_chains ::
    "(string \<Rightarrow> string option) \<Rightarrow> event list \<Rightarrow> string list list" where
  "detect_distraction_chains urlparse_hostname events =
     (let sequence = distraction_sequence urlparse_hostname events
      in if length sequence < 2 then []
         else
           let bigrams = count_all (filter (\<lambda>(a, b). a \<noteq> b) (pairs_of sequence));
               trigrams = count_all (filter (\<lambda>(a, b, c). \<not> (a = b \<and> b = c)) (triples_of sequence))
           in map (\<lambda>((a, b, c), count). [a, b, c])
                  (filter (\<lambda>(triple, count). count \<ge> 2) (most_common 5 trigrams))
              @ map (\<lambda>((a, b), count). [a, b])
                  (filter (\<lambda>(pair, count). count \<ge> 3) (most_common 5 bigrams)))"

text \<open>\<^verbatim>\<open>_analyze_hourly_vulnerability\<close>: the two accumulators, then the ratio of each hour from 0 to 23.\<close>

definition hourly_step ::
    "(string \<Rightarrow> string option) \<Rightarrow> (string \<Rightarrow> nat option) \<Rightarrow> event
      \<Rightarrow> (nat \<times> int) list \<times> (nat \<times> int) list \<Rightarrow> (nat \<times> int) list \<times> (nat \<times> int) list" where
  "hourly_step urlparse_hostname fromisoformat_hour ev acc =
     (case acc of (hour_total, hour_distraction) \<Rightarrow>
        (case hour_bucket fromisoformat_hour (ev_timestamp ev) of
           None \<Rightarrow> (hour_total, hour_distraction)
         | Some hour \<Rightarrow>
             let dur = event_duration ev;
                 hour_total = dict_add hour dur hour_total
             in if ev_is_distraction ev
                   \<or> (case event_domain urlparse_hostname ev of None \<Rightarrow> False
                       | Some domain \<Rightarrow> domain \<noteq> [] \<and> domain \<in> PA_DISTRACTION_DOMAINS)
                then (hour_total, dict_add hour dur hour_distraction)
                else (hour_total, hour_distraction)))"

definition analyze_hourly_vulnerability ::
    "(string \<Rightarrow> string option) \<Rightarrow> (string \<Rightarrow> nat option) \<Rightarrow> event list \<Rightarrow> (nat \<times> real) list" where
  "analyze_hourly_vulnerability urlparse_hostname fromisoformat_hour events =
     (case fold (hourly_step urlparse_hostname fromisoformat_hour) events ([], []) of
        (hour_total, hour_distraction) \<Rightarrow>
          map (\<lambda>h. let total = dict_get hour_total h
                    in if total > 0
                       then (h, round3 (of_int (dict_get hour_distraction h) / of_int total))
                       else (h, 0))
              [0..<24])"

text \<open>\<^verbatim>\<open>_analyze_domain_risks\<close>.\<close>

definition domain_step ::
    "(string \<Rightarrow> string option) \<Rightarrow> event
      \<Rightarrow> (string \<times> int) list \<times> (string \<times> int) list
      \<Rightarrow> (string \<times> int) list \<times> (string \<times> int) list" where
  "domain_step urlparse_hostname ev acc =
     (case acc of (domain_total, domain_distraction) \<Rightarrow>
        (case event_domain urlparse_hostname ev of
           None \<Rightarrow> (domain_total, domain_distraction)
         | Some domain \<Rightarrow>
             if domain = [] then (domain_total, domain_distraction)
             else
               let dur = event_duration ev;
                   domain_total = dict_add domain dur domain_total
               in if ev_is_distraction ev \<or> domain \<in> PA_DISTRACTION_DOMAINS
                  then (domain_total, dict_add domain dur domain_distraction)
                  else (domain_total, domain_distraction)))"

definition analyze_domain_risks ::
    "(string \<Rightarrow> string option) \<Rightarrow> event list \<Rightarrow> (string \<times> real) list" where
  "analyze_domain_risks urlparse_hostname events =
     (case fold (domain_step urlparse_hostname) events ([], []) of
        (domain_total, domain_distraction) \<Rightarrow>
          sort_key (\<lambda>(domain, risk). - risk)
            (map (\<lambda>(domain, total).
                    (domain, round3 (of_int (dict_get domain_distraction domain) / of_int total)))
                 (filter (\<lambda>(domain, total). total > 0) domain_total)))"

text \<open>\<^verbatim>\<open>_detect_long_dwells\<close>, with its default threshold of 120 seconds.\<close>

definition dwell_step ::
    "(string \<Rightarrow> string option) \<Rightarrow> event \<Rightarrow> (string \<times> int list) list \<Rightarrow> (string \<times> int list) list" where
  "dwell_step urlparse_hostname ev domain_durations =
     (case distraction_domain urlparse_hostname ev of
        None \<Rightarrow> domain_durations
      | Some domain \<Rightarrow> dict_append domain (event_duration ev) domain_durations)"

definition detect_long_dwells ::
    "(string \<Rightarrow> string option) \<Rightarrow> event list \<Rightarrow> (string \<times> int) list" where
  "detect_long_dwells urlparse_hostname events =
     (let threshold_seconds = 120 :: real;
          domain_durations = fold (dwell_step urlparse_hostname) events [];
          averages = map (\<lambda>(domain, durations).
                            (domain, if durations = [] then 0
                                     else of_int (sum_list durations) / of_nat (length durations)))
                         domain_durations
      in sort_key (\<lambda>(domain, avg). - avg)
           (map (\<lambda>(domain, avg). (domain, round_half_even avg))
                (filter (\<lambda>(domain, avg). avg \<ge> threshold_seconds) averages)))"

text \<open>
  A pattern record without its \<^verbatim>\<open>description\<close> text, which is built from the same values
  as the \<^verbatim>\<open>data\<close> entry and read by no agent.
\<close>

datatype pattern_data =
    Vulnerable_hours "nat list"
  | Domain_risks "(string \<times> real) list"
  | Chains "string list list"
  | Dwell_domains "(string \<times> int) list"

record pattern =
  p_type :: string
  p_confidence :: real
  p_data :: pattern_data

record pattern_output =
  patterns :: "pattern list"
  hourly_vulnerability :: "(nat \<times> real) list"
  domain_risk_scores :: "(string \<times> real) list"
  distraction_chains :: "string list list"

text \<open>\<^verbatim>\<open>PatternAgent.analyze\<close> on \<^verbatim>\<open>data.get("events", [])\<close>.\<close>

definition pattern_analyze ::
    "(string \<Rightarrow> string option) \<Rightarrow> (string \<Rightarrow> nat option) \<Rightarrow> event list \<Rightarrow> pattern_output" where
  "pattern_analyze urlparse_hostname fromisoformat_hour events =
     (if events = []
      then \<lparr>patterns = [], hourly_vulnerability = [], domain_risk_scores = [],
            distraction_chains = []\<rparr>
      else
        let hourly_vuln = analyze_hourly_vulnerability urlparse_hostname fromisoformat_hour events;
            vulnerable_hours = map fst (filter (\<lambda>(h, score). score > 0.5) hourly_vuln);
            patterns1 =
              (if vulnerable_hours \<noteq> []
               then [\<lparr>p_type = ''time_vulnerability'',
                      p_confidence =
                        round3 (sum_list (map snd (filter (\<lambda>(h, score). score > 0.5) hourly_vuln))
                                / of_nat (length vulnerable_hours)),
                      p_data = Vulnerable_hours (sort vulnerable_hours)\<rparr>]
               else []);
            domain_risks = analyze_domain_risks urlparse_hostname events;
            high_risk = filter (\<lambda>(d, score). score > 0.6) domain_risks;
            patterns2 =
              (if high_risk \<noteq> []
               then [\<lparr>p_type = ''high_risk_domains'',
                      p_confidence =
                        round3 (sum_list (map snd high_risk) / of_nat (length high_risk)),
                      p_data = Domain_risks (take 10 high_risk)\<rparr>]
               else []);
            chains = detect_distraction_chains urlparse_hostname events;
            patterns3 =
              (if chains \<noteq> []
               then [\<lparr>p_type = ''distraction_chain'', p_confidence = 0.7,
                      p_data = Chains (take 5 chains)\<rparr>]
               else []);
            long_dwell = detect_long_dwells urlparse_hostname events;
            patterns4 =
              (if long_dwell \<noteq> []
               then [\<lparr>p_type = ''long_dwell'', p_confidence = 0.8,
                      p_data = Dwell_domains (take 10 long_dwell)\<rparr>]
               else [])
        in \<lparr>patterns = patterns1 @ patterns2 @ patterns3 @ patterns4,
            hourly_vulnerability = hourly_vuln,
            domain_risk_scores = domain_risks,
            distraction_chains = chains\<rparr>)"

text \<open>The nine events of the chain example, each flagged as a distraction.\<close>

definition visit :: "string \<Rightarrow> event" where
  "visit d = \<lparr>ev_url = None, ev_domain = Some d, ev_title = None, ev_duration_seconds = Some 60,
              ev_timestamp = None, ev_is_distraction = True, ev_category = None\<rparr>"

definition spiral :: "event list" where
  "spiral = map visit
     [''youtube.com'', ''reddit.com'', ''instagram.com'',
      ''youtube.com'', ''reddit.com'', ''instagram.com'',
      ''youtube.com'', ''reddit.com'', ''instagram.com'']"

text \<open>
  The keys that the last two loops of \<^verbatim>\<open>_detect_distraction_chains\<close> keep from a counter:
  those among the \<open>n\<close> most common whose count is at least \<open>m\<close>.
\<close>

definition reported :: "nat \<Rightarrow> int \<Rightarrow> ('k \<times> int) list \<Rightarrow> 'k list" where
  "reported n m counter = map fst (filter (\<lambda>(k, c). c \<ge> m) (most_common n counter))"

section \<open>Context agent: title keywords\<close>

text \<open>
  The keyword patterns use literal characters, \<^verbatim>\<open>\d\<close>, \<^verbatim>\<open>\s\<close>, \<^verbatim>\<open>\b\<close>, concatenation,
  alternation, \<^verbatim>\<open>?\<close>, \<^verbatim>\<open>*\<close> and \<^verbatim>\<open>+\<close>; \<^verbatim>\<open>r+\<close> is written \<open>Cat [r, Star r]\<close> and
  \<^verbatim>\<open>\d{3}\<close>, \<^verbatim>\<open>\d{2,3}\<close> as the sequences they abbreviate.
\<close>

datatype regex =
    Lit char
  | Dig
  | Spc
  | Wb
  | Cat "regex list"
  | Alt "regex list"
  | Opt regex
  | Star regex

text \<open>The character classes of \<^verbatim>\<open>re\<close> on \<^verbatim>\<open>str\<close> patterns, for the code points below 256.\<close>

definition is_space :: "char \<Rightarrow> bool" where
  "is_space c = (let n = of_char c :: nat
                 in (9 \<le> n \<and> n \<le> 13) \<or> (28 \<le> n \<and> n \<le> 32) \<or> n = 133 \<or> n = 160)"

definition is_digit :: "char \<Rightarrow> bool" where
  "is_digit c = (let n = of_char c :: nat in 48 \<le> n \<and> n \<le> 57)"

definition is_word :: "char \<Rightarrow> bool" where
  "is_word c = (let n = of_char c :: nat
                in (48 \<le> n \<and> n \<le> 57) \<or> (65 \<le> n \<and> n \<le> 90) \<or> n = 95 \<or> (97 \<le> n \<and> n \<le> 122)
                   \<or> n = 170 \<or> n = 178 \<or> n = 179 \<or> n = 181 \<or> n = 185 \<or> n = 186
                   \<or> (188 \<le> n \<and> n \<le> 190) \<or> (192 \<le> n \<and> n \<le> 214)
                   \<or> (216 \<le> n \<and> n \<le> 246) \<or> (248 \<le> n \<and> n \<le> 255))"

text \<open>
  The text to search is read once into its lower-cased characters, each with the flag
  "is a word character"; under \<^verbatim>\<open>re.IGNORECASE\<close> a literal of the pattern is compared in
  lower case with these.
\<close>

type_synonym subject = "(char \<times> bool) list"

definition annotate :: "string \<Rightarrow> subject" where
  "annotate title = map (\<lambda>x. (lower_char x, is_word x)) title"

fun next_is_word :: "subject \<Rightarrow> bool" where
  "next_is_word [] = False"
| "next_is_word ((x, w) # s) = w"

text \<open>
  \<open>accepts n k b s\<close>: the patterns of the list \<open>k\<close>, one after the other, match a prefix of
  \<open>s\<close>, where \<open>b\<close> tells whether the character before \<open>s\<close> is a word character
  (\<^verbatim>\<open>\b\<close> holds where \<open>b\<close> and the flag of the next character differ). The number \<open>n\<close>
  bounds the iterations of \<^verbatim>\<open>*\<close>; an iteration that matters consumes a character, so
  any \<open>n\<close> above the length of the text loses no match.
\<close>

function accepts :: "nat \<Rightarrow> regex list \<Rightarrow> bool \<Rightarrow> subject \<Rightarrow> bool" where
  "accepts n [] b s = True"
| "accepts n (Lit c # k) b [] = False"
| "accepts n (Lit c # k) b ((x, w) # s) = (if x = lower_char c then accepts n k w s else False)"
| "accepts n (Dig # k) b [] = False"
| "accepts n (Dig # k) b ((x, w) # s) = (if is_digit x then accepts n k w s else False)"
| "accepts n (Spc # k) b [] = False"
| "accepts n (Spc # k) b ((x, w) # s) = (if is_space x then accepts n k w s else False)"
| "accepts n (Wb # k) b s = (if b \<noteq> next_is_word s then accepts n k b s else False)"
| "accepts n (Cat rs # k) b s = accepts n (rs @ k) b s"
| "accepts n (Alt [] # k) b s = False"
| "accepts n (Alt (r # rs) # k) b s =
     (if accepts n (r # k) b s then True else accepts n (Alt rs # k) b s)"
| "accepts n (Opt r # k) b s = (if accepts n (r # k) b s then True else accepts n k b s)"
| "accepts 0 (Star r # k) b s = accepts 0 k b s"
| "accepts (Suc n) (Star r # k) b s =
     (if accepts (Suc n) k b s then True else accepts n (r # Star r # k) b s)"
  by pat_completeness auto

fun weight :: "regex \<Rightarrow> nat" where
  "weight (Cat rs) = Suc (sum_list (map weight rs))"
| "weight (Alt rs) = Suc (length rs + sum_list (map weight rs))"
| "weight (Opt r) = Suc (weight r)"
| "weight (Star r) = Suc (weight r)"
| "weight _ = 1"

termination accepts
  by (relation "measures [\<lambda>(n, k, b, s). n, \<lambda>(n, k, b, s). sum_list (map weight k)]") auto

text \<open>A match may start at any position of the text.\<close>

fun search :: "nat \<Rightarrow> regex \<Rightarrow> bool \<Rightarrow> subject \<Rightarrow> bool" where
  "search n r b [] = accepts n [r] b []"
| "search n r b ((x, w) # s) =
     (if accepts n [r] b ((x, w) # s) then True else search n r w s)"

text \<open>\<^verbatim>\<open>re.search(kw, title, re.IGNORECASE)\<close> finds a match.\<close>

definition re_search :: "regex \<Rightarrow> string \<Rightarrow> bool" where
  "re_search kw title = search (Suc (length title)) kw False (annotate title)"

definition lit :: "string \<Rightarrow> regex" where
  "lit w = Cat (map Lit w)"

text \<open>\<^verbatim>\<open>\b(w1|w2|...)s?\b\<close> and \<^verbatim>\<open>\b(w1|w2|...)\b\<close>.\<close>

definition plural_of :: "regex list \<Rightarrow> regex" where
  "plural_of alternatives = Cat [Wb, Alt alternatives, Opt (Lit CHR ''s''), Wb]"

definition one_of :: "regex list \<Rightarrow> regex" where
  "one_of alternatives = Cat [Wb, Alt alternatives, Wb]"

text \<open>\<^verbatim>\<open>a\s*b\<close>, \<^verbatim>\<open>a\s+b\<close> and \<^verbatim>\<open>a\s?\d\<close>.\<close>

definition spaced :: "string \<Rightarrow> string \<Rightarrow> regex" where
  "spaced a b = Cat [lit a, Star Spc, lit b]"

definition spaced1 :: "string \<Rightarrow> regex \<Rightarrow> regex" where
  "spaced1 a r = Cat [lit a, Spc, Star Spc, r]"

definition numbered :: "string \<Rightarrow> regex" where
  "numbered a = Cat [lit a, Opt Spc, Dig]"

definition STUDY_KEYWORDS :: "regex list" where
  "STUDY_KEYWORDS = [
     plural_of [lit ''algorithm'', spaced ''data'' ''structure'', spaced ''machine'' ''learning'',
                spaced ''deep'' ''learning'', spaced ''neural'' ''network''],
     plural_of [lit ''research'', lit ''paper'', lit ''thesis'', lit ''dissertation'', lit ''survey'',
                lit ''abstract''],
     plural_of [lit ''programming'', lit ''coding'', lit ''software'', lit ''developer'',
                lit ''engineering''],
     plural_of [lit ''lecture'', lit ''tutorial'', lit ''course'', lit ''lesson'', lit ''class'',
                lit ''assignment'', lit ''homework'', lit ''syllabus''],
     plural_of [lit ''database'', lit ''network'', lit ''security'', spaced ''system'' ''design'',
                lit ''architecture''],
     plural_of [lit ''python'', lit ''java'', lit ''javascript'', lit ''typescript'', lit ''c++'',
                lit ''rust'', lit ''golang'', lit ''react'', lit ''node''],
     plural_of [lit ''ieee'', lit ''acm'', lit ''arxiv'', lit ''conference'', lit ''journal'',
                lit ''proceedings''],
     plural_of [lit ''exam'', lit ''quiz'', lit ''test'', lit ''study'', lit ''review'', lit ''notes'',
                lit ''textbook''],
     plural_of [lit ''math'', lit ''calculus'', lit ''algebra'', lit ''statistics'', lit ''probability'',
                lit ''physics'', lit ''chemistry'', lit ''biology''],
     one_of [lit ''MIT'', lit ''Stanford'', lit ''Harvard'', lit ''Oxford'', lit ''Cambridge'',
             lit ''Berkeley''],
     one_of [numbered ''CS'', Cat [lit ''6.'', Dig, Dig, Dig], Cat [lit ''CS'', Dig, Dig, Opt Dig],
             numbered ''COMP'', numbered ''EE'', numbered ''MATH''],
     one_of [spaced1 ''introduction'' (lit ''to''), spaced1 ''fundamentals'' (lit ''of''),
             spaced1 ''principles'' (lit ''of''), lit ''learn''],
     plural_of [spaced1 ''how'' (spaced1 ''to''
                  (Alt [lit ''code'', lit ''program'', lit ''build'', lit ''implement'', lit ''solve'',
                        lit ''debug'']))],
     plural_of [lit ''documentation'', lit ''docs'', lit ''reference'', lit ''guide'', lit ''manual'',
                lit ''handbook'', lit ''API''],
     plural_of [spaced ''open'' ''courseware'', lit ''OCW'', lit ''MOOC'', lit ''coursework'',
                lit ''curriculum''],
     one_of [lit ''analysis'', lit ''computing'', lit ''informatics'', spaced ''data'' ''science'',
             lit ''AI'', lit ''NLP'', lit ''CV'']]"

definition DISTRACTION_KEYWORDS :: "regex list" where
  "DISTRACTION_KEYWORDS = [
     plural_of [lit ''viral'', lit ''meme'', lit ''celebrity'', lit ''gossip'', lit ''prank'',
                Cat [lit ''fail'', Opt (Lit CHR ''s'')], Cat [lit ''blooper'', Opt (Lit CHR ''s'')]],
     plural_of [lit ''gaming'', lit ''gameplay'', lit ''twitch'',
                Cat [lit ''let'', Opt (Lit CHR ''s''), Star Spc, lit ''play''],
                lit ''walkthrough'', lit ''speedrun''],
     plural_of [lit ''funny'', lit ''comedy'', lit ''entertainment'', lit ''trending'',
                Cat [lit ''react'', Opt (lit ''ion''), Opt (Lit CHR ''s'')]],
     plural_of [lit ''shopping'', lit ''sale'', lit ''discount'', lit ''deal'', lit ''coupon'',
                lit ''unboxing''],
     plural_of [lit ''drama'', spaced ''reality'' ''TV'', lit ''vlog'', lit ''mukbang'', lit ''ASMR'',
                lit ''compilation''],
     plural_of [lit ''shorts'', lit ''reel'', lit ''story'', lit ''tiktok'', lit ''snap'']]"

definition ADULT_KEYWORDS :: "regex list" where
  "ADULT_KEYWORDS = [
     plural_of [lit ''porn'', lit ''porno'', lit ''pornography'', lit ''xxx'', lit ''nsfw'', lit ''sex'',
                lit ''camgirl'', spaced ''adult'' ''video'']]"

text \<open>\<^verbatim>\<open>_score_title_regex\<close>.\<close>

definition count_hits :: "regex list \<Rightarrow> string \<Rightarrow> nat" where
  "count_hits keywords title = length (filter (\<lambda>kw. re_search kw title) keywords)"

definition score_title_regex :: "string \<Rightarrow> real" where
  "score_title_regex title =
     (if title = [] then 0.0
      else if \<exists>kw \<in> set ADULT_KEYWORDS. re_search kw title then -2.0
      else
        let study_hits = count_hits STUDY_KEYWORDS title;
            distraction_hits = count_hits DISTRACTION_KEYWORDS title
        in if study_hits > distraction_hits then min 0.7 (of_nat study_hits * 0.2)
           else if distraction_hits > study_hits then max (-0.7) (of_nat distraction_hits * -0.2)
           else 0.0)"

text \<open>
  The title score in the words of the specification: -2.0 as soon as a severe keyword pattern
  matches; otherwise, with \<open>s\<close> study patterns and \<open>d\<close> distraction patterns matched,
  min(0.7, s * 0.2) when \<open>s > d\<close>, max(-0.7, d * -0.2) when \<open>d > s\<close>, and 0.0 on a tie.
\<close>

definition title_score_as_specified :: "string \<Rightarrow> real" where
  "title_score_as_specified title =
     (if \<exists>kw \<in> set ADULT_KEYWORDS. re_search kw title then -2
      else let s = count_hits STUDY_KEYWORDS title; d = count_hits DISTRACTION_KEYWORDS title
           in if s > d then min 0.7 (of_nat s * 0.2)
              else if d > s then max (-0.7) (of_nat d * -0.2)
              else 0)"

section \<open>Context agent: analysis\<close>

text \<open>
  \<^verbatim>\<open>_ask_gemini_classification\<close>. The parameter \<open>generate\<close> stands for the call of the
  Gemini client on the prompt built from the title, giving the text of the response or
  \<open>None\<close> where the call raises. The \<^verbatim>\<open>lru_cache\<close> around the method stores answers and does
  not change them.
\<close>

definition strip :: "string \<Rightarrow> string" where
  "strip s = rev (dropWhile is_space (rev (dropWhile is_space s)))"

definition ask_gemini_classification :: "(string \<Rightarrow> string option) \<Rightarrow> string \<Rightarrow> string" where
  "ask_gemini_classification generate title =
     (if title = [] \<or> length title < 5 then ''neutral''
      else (case generate title of
              None \<Rightarrow> ''neutral''
            | Some response \<Rightarrow>
                let text = lower (strip response)
                in if sublist ''distraction'' text then ''distraction''
                   else if sublist ''study'' text then ''study''
                   else ''neutral''))"

text \<open>
  Step 2 of \<^verbatim>\<open>analyze\<close>: the title score. The parameter \<open>gemini\<close> is \<open>None\<close> when
  \<^verbatim>\<open>genai and os.getenv("GEMINI_API_KEY")\<close> is false.
\<close>

definition compute_title_score ::
    "(string \<Rightarrow> string option) option \<Rightarrow> string option \<Rightarrow> string \<Rightarrow> real" where
  "compute_title_score gemini domain title =
     (case gemini of
        None \<Rightarrow> score_title_regex title
      | Some generate \<Rightarrow>
          if (case domain of None \<Rightarrow> False | Some d \<Rightarrow> d \<in> MIXED_DOMAINS)
          then let llm_result = ask_gemini_classification generate title
               in if llm_result = ''distraction'' then -0.8
                  else if llm_result = ''study'' then 0.8
                  else score_title_regex title
          else score_title_regex title)"

text \<open>\<^verbatim>\<open>str.split()\<close>: the maximal runs of characters that are not whitespace.\<close>

fun split_acc :: "string \<Rightarrow> string \<Rightarrow> string list" where
  "split_acc cur [] = (if cur = [] then [] else [cur])"
| "split_acc cur (c # cs) =
     (if is_space c then (if cur = [] then split_acc [] cs else cur # split_acc [] cs)
      else split_acc (cur @ [c]) cs)"

definition split :: "string \<Rightarrow> string list" where
  "split s = split_acc [] s"

text \<open>
  \<^verbatim>\<open>_compute_topic_relevance\<close>. The stop word that is a dash beyond the code points below
  256 is left out: no word of such a text equals it.
\<close>

definition stop_words :: "string set" where
  "stop_words = {''the'', ''a'', ''an'', ''in'', ''on'', ''at'', ''to'', ''for'', ''of'',
                 ''and'', ''or'', ''is'', ''it'', ''with'', ''-'', ''|''}"

definition compute_topic_relevance :: "string \<Rightarrow> string \<Rightarrow> real" where
  "compute_topic_relevance topic title =
     (let topic_words = remdups (filter (\<lambda>w. w \<notin> stop_words) (split (lower topic)));
          title_words = remdups (filter (\<lambda>w. w \<notin> stop_words) (split (lower title)))
      in if topic_words = [] then 0.0
         else let overlap = filter (\<lambda>w. w \<in> set title_words) topic_words
              in of_nat (length overlap) / of_nat (length topic_words))"

text \<open>\<^verbatim>\<open>_score_trajectory\<close>, on the last five recent domains.\<close>

definition score_trajectory :: "string list \<Rightarrow> real" where
  "score_trajectory recent =
     (if recent = [] then 0.0
      else
        let scores = map (\<lambda>d. if d \<in> STUDY_DOMAINS then 1.0
                                else if d \<in> DISTRACTION_DOMAINS then -1.0 else (0.0 :: real))
                         (drop (length recent - 5) recent)
        in if scores = [] then 0.0
           else
             let weighted = sum_list (map (\<lambda>(i, s). s * (of_nat i + 1)) (enumerate 0 scores));
                 max_weight = sum_list (map (\<lambda>i. of_nat i + 1) [0..<length scores])
             in if max_weight > 0 then weighted / max_weight else 0.0)"

record context_input =
  current_url :: "string option"
  current_title :: "string option"
  current_domain :: "string option"
  study_topic :: "string option"
  session_active :: bool
  recent_domains :: "string list"

text \<open>
  The result of \<^verbatim>\<open>analyze\<close> without its list of reasons: the explanation texts are
  appended along the way and no score, classification or confidence is computed from them.
\<close>

record context_output =
  classification :: string
  confidence :: real
  topic_relevance :: real
  context_score :: real
  is_adult :: bool

text \<open>\<^verbatim>\<open>data.get("current_title", "") or ""\<close> and
  \<^verbatim>\<open>data.get("current_domain") or _extract_domain(url)\<close>.\<close>

definition input_title :: "context_input \<Rightarrow> string" where
  "input_title data = (case current_title data of None \<Rightarrow> [] | Some t \<Rightarrow> t)"

definition input_domain :: "(string \<Rightarrow> string option) \<Rightarrow> context_input \<Rightarrow> string option" where
  "input_domain urlparse_hostname data =
     str_or (current_domain data) (extract_domain urlparse_hostname (current_url data))"

text \<open>The list \<^verbatim>\<open>scores\<close> at the end of steps 1 to 6 of \<^verbatim>\<open>analyze\<close>.\<close>

definition collect_scores ::
    "(string \<Rightarrow> string option) \<Rightarrow> (string \<Rightarrow> string option) option \<Rightarrow> context_input \<Rightarrow> real list" where
  "collect_scores urlparse_hostname gemini data =
     (let title = input_title data;
          domain = input_domain urlparse_hostname data;
          domain_score = score_domain domain;
          scores = [domain_score];
          title_score = compute_title_score gemini domain title;
          scores = scores @ [title_score];
          scores = (if domain_score \<le> 0 \<and> title_score > 0 then scores @ [1.0 + title_score]
                    else if domain_score \<ge> 0 \<and> title_score < 0 then scores @ [-0.8 + title_score]
                    else scores);
          scores = (case study_topic data of
                      None \<Rightarrow> scores
                    | Some topic \<Rightarrow>
                        if topic \<noteq> [] \<and> title \<noteq> []
                           \<and> compute_topic_relevance topic title > 0.3
                        then scores @ [if domain_score < 0 then 0.8 else 0.5]
                        else scores);
          scores = (if session_active data \<and> domain_score < 0 \<and> title_score \<le> 0
                    then scores @ [-0.3] else scores);
          trajectory_score = score_trajectory (recent_domains data)
      in if \<bar>trajectory_score\<bar> > 0.1 then scores @ [trajectory_score * 0.5] else scores)"

definition context_analyze ::
    "(string \<Rightarrow> string option) \<Rightarrow> (string \<Rightarrow> string option) option \<Rightarrow> context_input
      \<Rightarrow> context_output" where
  "context_analyze urlparse_hostname gemini data =
     (let title = input_title data;
          domain = input_domain urlparse_hostname data;
          domain_score = score_domain domain;
          title_score = compute_title_score gemini domain title;
          topic_relevance =
            (case study_topic data of
               None \<Rightarrow> 0.0
             | Some topic \<Rightarrow>
                 if topic \<noteq> [] \<and> title \<noteq> [] then compute_topic_relevance topic title else 0.0);
          scores = collect_scores urlparse_hostname gemini data;
          is_adult = (domain_score \<le> -2.0 \<or> title_score \<le> -2.0)
      in if is_adult
         then \<lparr>classification = ''distraction'', confidence = round3 1.0,
               topic_relevance = round3 topic_relevance, context_score = round3 (-1.0),
               is_adult = is_adult\<rparr>
         else
           let context_score = sum_list scores / of_nat (max (length scores) 1);
               context_score = max (-1.0) (min 1.0 context_score);
               classification = (if context_score > 0.2 then ''study''
                                 else if context_score < -0.2 then ''distraction''
                                 else ''neutral'');
               confidence = min 1.0 (\<bar>context_score\<bar> * 1.5)
           in \<lparr>classification = classification, confidence = round3 confidence,
               topic_relevance = round3 topic_relevance, context_score = round3 context_score,
               is_adult = is_adult\<rparr>)"

text \<open>Sample pages, after \<^verbatim>\<open>tests/test_context_override.py\<close>.\<close>

definition page :: "string \<Rightarrow> string \<Rightarrow> context_input" where
  "page d t = \<lparr>current_url = None, current_title = Some t, current_domain = Some d,
               study_topic = None, session_active = False, recent_domains = []\<rparr>"

section \<open>Context agent: properties of the domain score\<close>

lemma empty_not_catalogued:
  "[] \<notin> ADULT_DOMAINS" "[] \<notin> STUDY_DOMAINS" "[] \<notin> MIXED_DOMAINS" "[] \<notin> DISTRACTION_DOMAINS"
  by (simp_all add: ADULT_DOMAINS_def STUDY_DOMAINS_def MIXED_DOMAINS_def DISTRACTION_DOMAINS_def)

lemma empty_not_subdomain: "\<not> subdomain_of S []"
  by (simp add: subdomain_of_def)

text \<open>
  C5. The domain score of every hostname is one of -2.0, -0.8, -0.6, 0.0, 0.6, 0.8. An absent
  or empty hostname scores 0.0. Exact membership is decided first, in the order severe (-2.0),
  study (0.8), ambiguous (0.0), distraction (-0.8); only when no set holds the hostname is the
  suffix test (the hostname ends with a dot followed by a registered domain) tried, in the same
  order with the values -2.0, 0.6, 0.0, -0.6; a hostname that matches nothing scores 0.0. The
  score is a function of the hostname alone.
\<close>

theorem score_domain_catalog:
  "score_domain None = 0 \<and> score_domain (Some []) = 0
   \<and> score_domain (Some h) \<in> {-2, -0.8, -0.6, 0, 0.6, 0.8}
   \<and> (h \<in> ADULT_DOMAINS \<longrightarrow> score_domain (Some h) = -2)
   \<and> (h \<notin> ADULT_DOMAINS \<and> h \<in> STUDY_DOMAINS \<longrightarrow> score_domain (Some h) = 0.8)
   \<and> (h \<notin> ADULT_DOMAINS \<and> h \<notin> STUDY_DOMAINS \<and> h \<in> MIXED_DOMAINS \<longrightarrow> score_domain (Some h) = 0)
   \<and> (h \<notin> ADULT_DOMAINS \<and> h \<notin> STUDY_DOMAINS \<and> h \<notin> MIXED_DOMAINS \<and> h \<in> DISTRACTION_DOMAINS
        \<longrightarrow> score_domain (Some h) = -0.8)
   \<and> (h \<notin> ADULT_DOMAINS \<and> h \<notin> STUDY_DOMAINS \<and> h \<notin> MIXED_DOMAINS \<and> h \<notin> DISTRACTION_DOMAINS \<longrightarrow>
        (subdomain_of ADULT_DOMAINS h \<longrightarrow> score_domain (Some h) = -2)
      \<and> (\<not> subdomain_of ADULT_DOMAINS h \<and> subdomain_of STUDY_DOMAINS h
           \<longrightarrow> score_domain (Some h) = 0.6)
      \<and> (\<not> subdomain_of ADULT_DOMAINS h \<and> \<not> subdomain_of STUDY_DOMAINS h
           \<and> subdomain_of MIXED_DOMAINS h \<longrightarrow> score_domain (Some h) = 0)
      \<and> (\<not> subdomain_of ADULT_DOMAINS h \<and> \<not> subdomain_of STUDY_DOMAINS h
           \<and> \<not> subdomain_of MIXED_DOMAINS h \<and> subdomain_of DISTRACTION_DOMAINS h
           \<longrightarrow> score_domain (Some h) = -0.6)
      \<and> (\<not> subdomain_of ADULT_DOMAINS h \<and> \<not> subdomain_of STUDY_DOMAINS h
           \<and> \<not> subdomain_of MIXED_DOMAINS h \<and> \<not> subdomain_of DISTRACTION_DOMAINS h
           \<longrightarrow> score_domain (Some h) = 0))"
  using empty_not_catalogued empty_not_subdomain by simp

theorem score_domain_catalog_witness:
  "''m.facebook.com'' \<notin> ADULT_DOMAINS \<and> ''m.facebook.com'' \<notin> STUDY_DOMAINS
   \<and> ''m.facebook.com'' \<notin> MIXED_DOMAINS \<and> ''m.facebook.com'' \<notin> DISTRACTION_DOMAINS
   \<and> \<not> subdomain_of ADULT_DOMAINS ''m.facebook.com''
   \<and> \<not> subdomain_of STUDY_DOMAINS ''m.facebook.com''
   \<and> \<not> subdomain_of MIXED_DOMAINS ''m.facebook.com''
   \<and> subdomain_of DISTRACTION_DOMAINS ''m.facebook.com''
   \<and> score_domain (Some ''m.facebook.com'') = -0.6"
proof -
  have membership:
    "''m.facebook.com'' \<notin> ADULT_DOMAINS \<and> ''m.facebook.com'' \<notin> STUDY_DOMAINS
     \<and> ''m.facebook.com'' \<notin> MIXED_DOMAINS \<and> ''m.facebook.com'' \<notin> DISTRACTION_DOMAINS
     \<and> \<not> subdomain_of ADULT_DOMAINS ''m.facebook.com''
     \<and> \<not> subdomain_of STUDY_DOMAINS ''m.facebook.com''
     \<and> \<not> subdomain_of MIXED_DOMAINS ''m.facebook.com''
     \<and> subdomain_of DISTRACTION_DOMAINS ''m.facebook.com''"
    by (simp add: ADULT_DOMAINS_def STUDY_DOMAINS_def MIXED_DOMAINS_def DISTRACTION_DOMAINS_def
        subdomain_of_def suffix_to_prefix)
  from membership score_domain_catalog [of "''m.facebook.com''"] show ?thesis
    by blast
qed

section \<open>Rounding to a double: properties\<close>

lemma min_normal_bounds: "0 < min_normal" "min_normal \<le> 1"
  by (simp_all add: min_normal_def)

lemma pow2_pos: "pow2 q \<Longrightarrow> 0 < q"
  by (auto simp: pow2_def)

lemma pow2_one: "pow2 1"
  unfolding pow2_def by (rule exI [of _ 0]) simp

lemma pow2_double: "pow2 q \<Longrightarrow> pow2 (2 * q)"
proof -
  assume "pow2 q"
  then obtain k :: int where "q = 2 powi k" by (auto simp: pow2_def)
  then have "2 * q = 2 powi (k + 1)" by (simp add: power_int_add)
  then show ?thesis unfolding pow2_def by blast
qed

lemma pow2_half: "pow2 q \<Longrightarrow> pow2 (q / 2)"
proof -
  assume "pow2 q"
  then obtain k :: int where "q = 2 powi k" by (auto simp: pow2_def)
  then have "q / 2 = 2 powi (k - 1)" by (simp add: power_int_diff)
  then show ?thesis unfolding pow2_def by blast
qed

lemma pow2_power: "pow2 (2 ^ n)"
  unfolding pow2_def by (rule exI [of _ "int n"]) simp

lemma pow2_inverse_power: "pow2 (1 / 2 ^ n)"
  unfolding pow2_def by (rule exI [of _ "- int n"]) (simp add: power_int_minus_divide)

lemma pow2_gap:
  assumes "pow2 a" and "pow2 b" and "a < 2 * b"
  shows "a \<le> b"
proof -
  from assms obtain j k :: int where a: "a = 2 powi j" and b: "b = 2 powi k"
    by (auto simp: pow2_def)
  have "2 * b = 2 powi (k + 1)" by (simp add: b power_int_add)
  with assms(3) a have lt: "(2::real) powi j < 2 powi (k + 1)" by simp
  have "j < k + 1"
  proof (rule ccontr)
    assume "\<not> j < k + 1"
    then have "k + 1 \<le> j" by simp
    then have "(2::real) powi (k + 1) \<le> 2 powi j" by (rule power_int_increasing) simp
    with lt show False by simp
  qed
  then have "j \<le> k" by simp
  then have "(2::real) powi j \<le> 2 powi k" by (rule power_int_increasing) simp
  then show ?thesis by (simp add: a b)
qed

lemma quantum_shape:
  "min_normal \<le> x \<Longrightarrow>
     pow2 (quantum x) \<and> 2 ^ 52 * quantum x \<le> x \<and> x < 2 ^ 53 * quantum x"
proof (induction x rule: quantum.induct)
  case (1 x)
  consider (big) "2 ^ 53 \<le> x" | (base) "2 ^ 52 \<le> x" "x < 2 ^ 53" | (small) "x < 2 ^ 52"
    by linarith
  then show ?case
  proof cases
    case big
    have "min_normal \<le> x / 2" using big min_normal_bounds by simp
    from "1.IH"(1) [OF big this]
    have ih: "pow2 (quantum (x / 2))" "2 ^ 52 * quantum (x / 2) \<le> x / 2"
      "x / 2 < 2 ^ 53 * quantum (x / 2)" by simp_all
    have q: "quantum x = 2 * quantum (x / 2)" using big by (simp add: quantum.simps [of x])
    show ?thesis using ih by (simp add: q pow2_double)
  next
    case base
    then have "quantum x = 1" by (simp add: quantum.simps [of x])
    then show ?thesis using base by (simp add: pow2_one)
  next
    case small
    have n: "\<not> 2 ^ 53 \<le> x" "\<not> 2 ^ 52 \<le> x" using small by simp_all
    have m: "min_normal \<le> 2 * x" using "1.prems" min_normal_bounds by linarith
    have ih: "pow2 (quantum (2 * x)) \<and> 2 ^ 52 * quantum (2 * x) \<le> 2 * x
              \<and> 2 * x < 2 ^ 53 * quantum (2 * x)"
    proof (cases "1 \<le> x")
      case True
      from "1.IH"(2) [OF n True m] show ?thesis .
    next
      case False
      have "\<not> x < min_normal" using "1.prems" by simp
      from "1.IH"(3) [OF n False this m] show ?thesis .
    qed
    have q: "quantum x = quantum (2 * x) / 2"
      using n "1.prems" by (simp add: quantum.simps [of x])
    show ?thesis using ih by (simp add: q pow2_half)
  qed
qed

lemma quantum_unique:
  assumes "min_normal \<le> x" and "pow2 q" and "2 ^ 52 * q \<le> x" and "x < 2 ^ 53 * q"
  shows "quantum x = q"
proof -
  from quantum_shape [OF assms(1)]
  have s: "pow2 (quantum x)" "2 ^ 52 * quantum x \<le> x" "x < 2 ^ 53 * quantum x" by simp_all
  have "q < 2 * quantum x" using assms(3) s(3) by simp
  then have a: "q \<le> quantum x" using assms(2) s(1) by (intro pow2_gap)
  have "quantum x < 2 * q" using assms(4) s(2) by simp
  then have b: "quantum x \<le> q" using assms(2) s(1) by (intro pow2_gap)
  from a b show ?thesis by simp
qed

lemma quantum_double:
  assumes "min_normal \<le> x"
  shows "quantum (2 * x) = 2 * quantum x"
proof -
  from quantum_shape [OF assms]
  have s: "pow2 (quantum x)" "2 ^ 52 * quantum x \<le> x" "x < 2 ^ 53 * quantum x" by simp_all
  have "min_normal \<le> 2 * x" using assms min_normal_bounds by linarith
  then show ?thesis using s by (intro quantum_unique) (simp_all add: pow2_double)
qed

lemma quantum_steps:
  assumes "min_normal \<le> x" and "x \<le> y"
  shows "quantum x = quantum y \<or> 2 * quantum x \<le> quantum y"
proof -
  from quantum_shape [OF assms(1)]
  have sx: "pow2 (quantum x)" "2 ^ 52 * quantum x \<le> x" by simp_all
  have "min_normal \<le> y" using assms by simp
  from quantum_shape [OF this]
  have sy: "pow2 (quantum y)" "y < 2 ^ 53 * quantum y" by simp_all
  have lt: "quantum x < 2 * quantum y" using sx(2) sy(2) assms(2) by simp
  then have le: "quantum x \<le> quantum y" using sx(1) sy(1) by (intro pow2_gap)
  show ?thesis
  proof (cases "quantum x = quantum y")
    case True
    then show ?thesis by simp
  next
    case False
    with le have "2 * quantum x < 2 * quantum y" by simp
    then have "2 * quantum x \<le> quantum y" using sx(1) sy(1) by (intro pow2_gap pow2_double)
    then show ?thesis by simp
  qed
qed

lemma round_half_even_mono:
  assumes "x \<le> y"
  shows "round_half_even x \<le> round_half_even y"
proof (cases "\<lfloor>x\<rfloor> = \<lfloor>y\<rfloor>")
  case True
  then show ?thesis using assms by (auto simp: round_half_even_def Let_def)
next
  case False
  have "\<lfloor>x\<rfloor> \<le> \<lfloor>y\<rfloor>" using assms by (rule floor_mono)
  with False have lt: "\<lfloor>x\<rfloor> + 1 \<le> \<lfloor>y\<rfloor>" by simp
  have "round_half_even x \<le> \<lfloor>x\<rfloor> + 1" by (auto simp: round_half_even_def Let_def)
  moreover have "\<lfloor>y\<rfloor> \<le> round_half_even y" by (auto simp: round_half_even_def Let_def)
  ultimately show ?thesis using lt by linarith
qed

lemma round_half_even_bounds:
  assumes "of_int a \<le> x" and "x \<le> of_int b"
  shows "a \<le> round_half_even x \<and> round_half_even x \<le> b"
proof -
  have lo: "a \<le> \<lfloor>x\<rfloor>" using assms(1) by (simp add: le_floor_iff)
  have hi: "\<lfloor>x\<rfloor> \<le> b" using assms(2) by (simp add: floor_le_iff)
  have up: "x - of_int \<lfloor>x\<rfloor> \<ge> 1/2 \<Longrightarrow> \<lfloor>x\<rfloor> + 1 \<le> b"
  proof -
    assume "x - of_int \<lfloor>x\<rfloor> \<ge> 1/2"
    then have "of_int \<lfloor>x\<rfloor> < x" by linarith
    then have "of_int \<lfloor>x\<rfloor> < (of_int b :: real)" using assms(2) by linarith
    then have "\<lfloor>x\<rfloor> < b" by simp
    then show ?thesis by simp
  qed
  show ?thesis
    using lo hi up by (auto simp: round_half_even_def Let_def)
qed

lemma fl_nonneg: "0 \<le> x \<Longrightarrow> fl x = quantum x * of_int (round_half_even (x / quantum x))"
  by (simp add: fl_def)

lemma fl_double:
  assumes "min_normal \<le> x"
  shows "fl (2 * x) = 2 * fl x"
proof -
  have "0 \<le> x" using assms min_normal_bounds by linarith
  moreover have "0 < quantum x" using quantum_shape [OF assms] pow2_pos by blast
  ultimately show ?thesis by (simp add: fl_nonneg quantum_double [OF assms])
qed

lemma fl_in_binade:
  assumes "min_normal \<le> x"
  shows "2 ^ 52 * quantum x \<le> fl x \<and> fl x \<le> 2 ^ 53 * quantum x"
proof -
  from quantum_shape [OF assms]
  have s: "pow2 (quantum x)" "2 ^ 52 * quantum x \<le> x" "x < 2 ^ 53 * quantum x" by simp_all
  have q: "0 < quantum x" using s(1) by (rule pow2_pos)
  have "of_int (2 ^ 52) \<le> x / quantum x" "x / quantum x \<le> of_int (2 ^ 53)"
    using s q by (simp_all add: field_simps)
  from round_half_even_bounds [OF this]
  have "2 ^ 52 \<le> round_half_even (x / quantum x)" "round_half_even (x / quantum x) \<le> 2 ^ 53"
    by simp_all
  then have "(2::real) ^ 52 \<le> of_int (round_half_even (x / quantum x))"
    "real_of_int (round_half_even (x / quantum x)) \<le> 2 ^ 53"
    by (simp_all add: of_int_le_iff [symmetric] del: of_int_le_iff)
  moreover have "0 \<le> x" using assms min_normal_bounds by linarith
  ultimately show ?thesis using q by (simp add: fl_nonneg mult.commute)
qed

lemma fl_mono:
  assumes "min_normal \<le> x" and "x \<le> y"
  shows "fl x \<le> fl y"
proof -
  have y: "min_normal \<le> y" using assms by simp
  have nn: "0 \<le> x" "0 \<le> y" using assms min_normal_bounds by linarith+
  have qx: "0 < quantum x" using quantum_shape [OF assms(1)] pow2_pos by blast
  from quantum_steps [OF assms] show ?thesis
  proof
    assume e: "quantum x = quantum y"
    have "x / quantum y \<le> y / quantum y" using assms(2) qx e by (simp add: divide_right_mono)
    then have "round_half_even (x / quantum y) \<le> round_half_even (y / quantum y)"
      by (rule round_half_even_mono)
    then have "real_of_int (round_half_even (x / quantum y))
                 \<le> real_of_int (round_half_even (y / quantum y))" by simp
    then show ?thesis using qx e nn by (simp add: fl_nonneg mult_left_mono)
  next
    assume g: "2 * quantum x \<le> quantum y"
    have "fl x \<le> 2 ^ 53 * quantum x" using fl_in_binade [OF assms(1)] by simp
    also have "\<dots> = 2 ^ 52 * (2 * quantum x)" by simp
    also have "\<dots> \<le> 2 ^ 52 * quantum y" using g by (intro mult_left_mono) simp_all
    also have "\<dots> \<le> fl y" using fl_in_binade [OF y] by simp
    finally show ?thesis .
  qed
qed

lemma fl_eval:
  assumes "n \<le> 1074" and "2 ^ 52 \<le> x * 2 ^ n" and "x * 2 ^ n < 2 ^ 53"
  shows "fl x = of_int (round_half_even (x * 2 ^ n)) / 2 ^ n"
proof -
  have p: "(0::real) < 2 ^ n" by simp
  have x52: "2 ^ 52 / 2 ^ n \<le> x" using assms(2) p by (simp add: field_simps)
  have "(2::real) ^ n \<le> 2 ^ 1074" using assms(1) by (intro power_increasing) simp_all
  then have "(2::real) ^ 52 / 2 ^ 1074 \<le> 2 ^ 52 / 2 ^ n"
    by (intro divide_left_mono) simp_all
  moreover have "min_normal = 2 ^ 52 / 2 ^ 1074" by (simp add: min_normal_def)
  ultimately have m: "min_normal \<le> x" using x52 by linarith
  have "quantum x = 1 / 2 ^ n"
    using m assms(2,3) p by (intro quantum_unique pow2_inverse_power) (simp_all add: field_simps)
  moreover have "0 \<le> x" using m min_normal_bounds by linarith
  ultimately show ?thesis by (simp add: fl_nonneg)
qed

section \<open>Intervention agent: properties\<close>

lemma on_value_simps [simp]:
  "on_value (Inl e) f = Inl e" "on_value (Inr v) f = f v"
  by (simp_all add: on_value_def)

lemma only_overflow: "r = Inl e \<Longrightarrow> r = Inl OverflowError"
  by (cases e) simp

lemma quantum_subnormal: "x < min_normal \<Longrightarrow> quantum x = min_quantum"
  using min_normal_bounds by (simp add: quantum.simps [of x])

lemma fl_nonnegative:
  assumes "0 \<le> x"
  shows "0 \<le> fl x"
proof -
  have q: "0 < quantum x"
  proof (cases "x < min_normal")
    case True
    then show ?thesis by (simp add: quantum_subnormal min_quantum_def)
  next
    case False
    then have "min_normal \<le> x" by simp
    from quantum_shape [OF this] show ?thesis using pow2_pos by blast
  qed
  have "of_int 0 \<le> x / quantum x" using assms q by simp
  then have "0 \<le> \<lfloor>x / quantum x\<rfloor>" by (simp add: le_floor_iff)
  then have "0 \<le> round_half_even (x / quantum x)"
    by (auto simp: round_half_even_def Let_def)
  then show ?thesis using assms q by (simp add: fl_nonneg)
qed

lemma fl_07: "fl (7 / 10) = 3152519739159347 / 4503599627370496"
  by (subst fl_eval [where n = 53]) (simp_all add: round_half_even_def)

lemma fl_r9_half: "fl (9 / 20) = 8106479329266893 / 18014398509481984"
  by (subst fl_eval [where n = 54]) (simp_all add: round_half_even_def)

lemma fl_r9_mult: "fl (9907919180215091 / 18014398509481984) = 2476979795053773 / 4503599627370496"
  by (subst fl_eval [where n = 53]) (simp_all add: round_half_even_def)

lemma fl_r9_30: "fl (37154696925806595 / 2251799813685248) = 33 / 2"
  by (subst fl_eval [where n = 48]) (simp_all add: round_half_even_def)

lemma fl_r9_120: "fl (37154696925806595 / 562949953421312) = 66"
  by (subst fl_eval [where n = 46]) (simp_all add: round_half_even_def)

lemma fl_r9_300: "fl (185773484629032975 / 1125899906842624) = 165"
  by (subst fl_eval [where n = 45]) (simp_all add: round_half_even_def)

lemma fl_r9_600: "fl (185773484629032975 / 562949953421312) = 330"
  by (subst fl_eval [where n = 44]) (simp_all add: round_half_even_def)

lemma fl_r5_half: "fl (1 / 4) = 1 / 4"
  by (subst fl_eval [where n = 54]) (simp_all add: round_half_even_def)

lemma fl_r5_mult: "fl (3 / 4) = 3 / 4"
  by (subst fl_eval [where n = 53]) (simp_all add: round_half_even_def)

lemma fl_r5_30: "fl (45 / 2) = 45 / 2"
  by (subst fl_eval [where n = 48]) (simp_all add: round_half_even_def)

lemma fl_r5_120: "fl (90) = 90"
  by (subst fl_eval [where n = 46]) (simp_all add: round_half_even_def)

lemma fl_r5_300: "fl (225) = 225"
  by (subst fl_eval [where n = 45]) (simp_all add: round_half_even_def)

lemma fl_r5_600: "fl (450) = 450"
  by (subst fl_eval [where n = 44]) (simp_all add: round_half_even_def)

lemma fl_s5_30: "fl (34677717130752817 / 2251799813685248) = 2167357320672051 / 140737488355328"
  by (subst fl_eval [where n = 49]) (simp_all add: round_half_even_def)

lemma fl_s5_120: "fl (141863388262170615 / 2251799813685248) = 8866461766385663 / 140737488355328"
  by (subst fl_eval [where n = 47]) (simp_all add: round_half_even_def)

lemma fl_s5_300: "fl (709316941310853075 / 4503599627370496) = 315 / 2"
  by (subst fl_eval [where n = 45]) (simp_all add: round_half_even_def)

lemma fl_s5_600: "fl (709316941310853075 / 2251799813685248) = 315"
  by (subst fl_eval [where n = 44]) (simp_all add: round_half_even_def)

lemma fl_1: "fl (1) = 1"
  by (subst fl_eval [where n = 52]) (simp_all add: round_half_even_def)

lemma fl_10: "fl (10) = 10"
  by (subst fl_eval [where n = 49]) (simp_all add: round_half_even_def)

lemma fl_15: "fl (15) = 15"
  by (subst fl_eval [where n = 49]) (simp_all add: round_half_even_def)

lemma fl_600: "fl (600) = 600"
  by (subst fl_eval [where n = 43]) (simp_all add: round_half_even_def)

lemma fl_le_one:
  assumes "x \<le> 1"
  shows "fl x \<le> 1"
proof -
  consider (neg) "x < 0" | (sub) "0 \<le> x" "x < min_normal" | (normal) "min_normal \<le> x"
    by linarith
  then show ?thesis
  proof cases
    case neg
    then have "0 \<le> fl (- x)" by (intro fl_nonnegative) simp
    moreover have "fl x = - fl (- x)" using neg by (simp add: fl_def)
    ultimately show ?thesis by simp
  next
    case sub
    have q: "quantum x = min_quantum" using sub(2) by (rule quantum_subnormal)
    have mq: "0 < min_quantum" by (simp add: min_quantum_def)
    have "min_normal = 2 ^ 52 * min_quantum" by (simp add: min_normal_def min_quantum_def)
    then have "x / min_quantum \<le> of_int (2 ^ 52)" using sub(2) mq by (simp add: field_simps)
    moreover have "of_int 0 \<le> x / min_quantum" using sub(1) mq by simp
    ultimately have "round_half_even (x / min_quantum) \<le> 2 ^ 52"
      using round_half_even_bounds [of 0 "x / min_quantum" "2 ^ 52"] by simp
    then have "real_of_int (round_half_even (x / min_quantum)) \<le> 2 ^ 52"
      by (simp add: of_int_le_iff [symmetric] del: of_int_le_iff)
    then have "min_quantum * real_of_int (round_half_even (x / min_quantum)) \<le> min_quantum * 2 ^ 52"
      using mq by (intro mult_left_mono) simp_all
    also have "\<dots> = min_normal" by (simp add: min_normal_def min_quantum_def)
    finally show ?thesis using sub(1) min_normal_bounds by (simp add: fl_nonneg q)
  next
    case normal
    from fl_mono [OF normal assms] show ?thesis by (simp add: fl_1)
  qed
qed

lemma risk_multiplier_bounds:
  "1 / 2 \<le> risk_multiplier data"
  "0 \<le> get_domain_risk data \<Longrightarrow> risk_multiplier data \<le> 1"
proof -
  show "1 / 2 \<le> risk_multiplier data" by (simp add: risk_multiplier_def)
  assume "0 \<le> get_domain_risk data"
  then have "0 \<le> fl (get_domain_risk data * 0.5)" by (intro fl_nonnegative) simp
  then have "fl (1 - fl (get_domain_risk data * 0.5)) \<le> 1" by (intro fl_le_one) simp
  then show "risk_multiplier data \<le> 1" by (simp add: risk_multiplier_def)
qed

lemma fl_07_bounds: "2 / 3 \<le> fl 0.7" "fl 0.7 \<le> 1" "0 < fl 0.7"
  by (simp_all add: fl_07)

text \<open>A product at least twice another one stays so after rounding and truncation.\<close>

lemma fl_doubling:
  assumes "1 \<le> x" and "2 * x \<le> y"
  shows "2 * fl x \<le> fl y"
proof -
  have m: "min_normal \<le> x" using assms(1) min_normal_bounds by linarith
  then have "min_normal \<le> 2 * x" using min_normal_bounds by linarith
  from fl_mono [OF this assms(2)] show ?thesis by (simp add: fl_double [OF m])
qed

lemma int_of_product_steps:
  assumes low: "of_int L \<le> a * c" and L: "1 \<le> L" and exact: "fl (of_int L) = of_int L"
    and twice: "2 * (a * c) \<le> b * c"
    and n: "int_of_product a c = Inr n" and w: "int_of_product b c = Inr w"
  shows "L \<le> n \<and> 2 * n \<le> w"
proof -
  have l1: "(1::real) \<le> of_int L" using L by simp
  have x1: "1 \<le> a * c" using low l1 by linarith
  have "min_normal \<le> of_int L" using l1 min_normal_bounds by linarith
  from fl_mono [OF this low] have pl: "of_int L \<le> fl (a * c)" by (simp add: exact)
  then have p0: "0 \<le> fl (a * c)" using l1 by linarith
  have d: "2 * fl (a * c) \<le> fl (b * c)" using x1 twice by (rule fl_doubling)
  then have q0: "0 \<le> fl (b * c)" using p0 by linarith
  have nv: "n = \<lfloor>fl (a * c)\<rfloor>"
    using n p0 by (simp add: int_of_product_def Let_def py_int_def split: if_splits)
  have wv: "w = \<lfloor>fl (b * c)\<rfloor>"
    using w q0 by (simp add: int_of_product_def Let_def py_int_def split: if_splits)
  have "L \<le> n" using pl by (simp add: nv le_floor_iff)
  moreover have "2 * n \<le> w"
  proof -
    have "real_of_int (2 * \<lfloor>fl (a * c)\<rfloor>) \<le> 2 * fl (a * c)" by simp
    also have "\<dots> \<le> fl (b * c)" by (rule d)
    finally show ?thesis by (simp only: nv wv le_floor_iff)
  qed
  ultimately show ?thesis by simp
qed

lemma int_of_product_small:
  assumes "1 \<le> a * c" and "a * c \<le> 600"
  shows "\<exists>k. int_of_product a c = Inr k \<and> k \<le> 600"
proof -
  have m: "min_normal \<le> a * c" using assms(1) min_normal_bounds by linarith
  from fl_mono [OF m assms(2)] have hi: "fl (a * c) \<le> 600" by (simp add: fl_600)
  have lo: "0 \<le> fl (a * c)" using assms(1) by (intro fl_nonnegative) simp
  have "\<bar>fl (a * c)\<bar> < 2 ^ 1024" using hi lo by simp
  then have "int_of_product a c = Inr \<lfloor>fl (a * c)\<rfloor>"
    using lo by (simp add: int_of_product_def Let_def py_int_def)
  moreover have "\<lfloor>fl (a * c)\<rfloor> \<le> 600" using hi by (simp add: floor_le_iff)
  ultimately show ?thesis by blast
qed

text \<open>The two stages behind a result of \<open>adjusted_thresholds\<close>.\<close>

lemma adjusted_thresholds_stages:
  assumes "adjusted_thresholds data = Inr (n, w, s, h)"
  shows "\<exists>n1 w1 s1 h1.
           int_of_product (of_int NUDGE_THRESHOLD_SECONDS) (risk_multiplier data) = Inr n1
         \<and> int_of_product (of_int WARN_THRESHOLD_SECONDS) (risk_multiplier data) = Inr w1
         \<and> int_of_product (of_int SOFT_BLOCK_THRESHOLD_SECONDS) (risk_multiplier data) = Inr s1
         \<and> int_of_product (of_int HARD_BLOCK_THRESHOLD_SECONDS) (risk_multiplier data) = Inr h1
         \<and> (if iv_session_active data
             then int_of_product (of_int n1) (fl 0.7) = Inr n
                \<and> int_of_product (of_int w1) (fl 0.7) = Inr w
                \<and> int_of_product (of_int s1) (fl 0.7) = Inr s
                \<and> int_of_product (of_int h1) (fl 0.7) = Inr h
             else n1 = n \<and> w1 = w \<and> s1 = s \<and> h1 = h)"
  using assms
  by (simp add: adjusted_thresholds_def on_value_def Let_def split: sum.splits if_splits)

lemma adjusted_thresholds_by_base:
  "adjusted_thresholds data =
     on_value (adjusted_threshold NUDGE_THRESHOLD_SECONDS data) (\<lambda>n.
     on_value (adjusted_threshold WARN_THRESHOLD_SECONDS data) (\<lambda>w.
     on_value (adjusted_threshold SOFT_BLOCK_THRESHOLD_SECONDS data) (\<lambda>s.
     on_value (adjusted_threshold HARD_BLOCK_THRESHOLD_SECONDS data) (\<lambda>h.
       Inr (n, w, s, h)))))"
proof -
  have e: "x = y" for x y :: error by (cases x; cases y) simp
  show ?thesis
    by (auto simp: adjusted_thresholds_def adjusted_threshold_def on_value_def Let_def e
        split: sum.splits)
qed

lemma thresholds_ascending:
  assumes "adjusted_thresholds data = Inr (n, w, s, h)"
  shows "10 \<le> n \<and> 2 * n \<le> w \<and> 2 * w \<le> s \<and> 2 * s \<le> h"
proof -
  let ?m = "risk_multiplier data"
  have m: "1 / 2 \<le> ?m" by (rule risk_multiplier_bounds)
  from adjusted_thresholds_stages [OF assms] obtain n1 w1 s1 h1 where
    n1: "int_of_product (of_int NUDGE_THRESHOLD_SECONDS) ?m = Inr n1" and
    w1: "int_of_product (of_int WARN_THRESHOLD_SECONDS) ?m = Inr w1" and
    s1: "int_of_product (of_int SOFT_BLOCK_THRESHOLD_SECONDS) ?m = Inr s1" and
    h1: "int_of_product (of_int HARD_BLOCK_THRESHOLD_SECONDS) ?m = Inr h1" and
    st: "if iv_session_active data
         then int_of_product (of_int n1) (fl 0.7) = Inr n
            \<and> int_of_product (of_int w1) (fl 0.7) = Inr w
            \<and> int_of_product (of_int s1) (fl 0.7) = Inr s
            \<and> int_of_product (of_int h1) (fl 0.7) = Inr h
         else n1 = n \<and> w1 = w \<and> s1 = s \<and> h1 = h"
    by blast
  have f15: "fl (of_int 15) = of_int 15" by (simp add: fl_15)
  have f10: "fl (of_int 10) = of_int 10" by (simp add: fl_10)
  have a: "15 \<le> n1 \<and> 2 * n1 \<le> w1"
    using m by (intro int_of_product_steps [OF _ _ f15 _ n1 w1])
      (simp_all add: NUDGE_THRESHOLD_SECONDS_def WARN_THRESHOLD_SECONDS_def)
  have b: "15 \<le> w1 \<and> 2 * w1 \<le> s1"
    using m by (intro int_of_product_steps [OF _ _ f15 _ w1 s1])
      (simp_all add: WARN_THRESHOLD_SECONDS_def SOFT_BLOCK_THRESHOLD_SECONDS_def)
  have c: "15 \<le> s1 \<and> 2 * s1 \<le> h1"
    using m by (intro int_of_product_steps [OF _ _ f15 _ s1 h1])
      (simp_all add: SOFT_BLOCK_THRESHOLD_SECONDS_def HARD_BLOCK_THRESHOLD_SECONDS_def)
  show ?thesis
  proof (cases "iv_session_active data")
    case False
    with st a b c show ?thesis by simp
  next
    case True
    with st have n: "int_of_product (of_int n1) (fl 0.7) = Inr n"
      and w: "int_of_product (of_int w1) (fl 0.7) = Inr w"
      and s: "int_of_product (of_int s1) (fl 0.7) = Inr s"
      and h: "int_of_product (of_int h1) (fl 0.7) = Inr h" by simp_all
    have low: "of_int 10 \<le> real_of_int k * fl 0.7" if "15 \<le> k" for k :: int
    proof -
      have "(15::real) \<le> of_int k" using that by simp
      then have "15 * (2 / 3) \<le> real_of_int k * fl 0.7"
        using fl_07_bounds(1) by (intro mult_mono) simp_all
      then show ?thesis by simp
    qed
    have twice: "2 * (real_of_int j * fl 0.7) \<le> real_of_int k * fl 0.7" if "2 * j \<le> k" for j k :: int
    proof -
      have "real_of_int (2 * j) \<le> real_of_int k" using that by (simp only: of_int_le_iff)
      then have "real_of_int (2 * j) * fl 0.7 \<le> real_of_int k * fl 0.7"
        using fl_07_bounds(3) by (intro mult_right_mono) simp_all
      then show ?thesis by simp
    qed
    have a': "10 \<le> n \<and> 2 * n \<le> w"
      using a by (intro int_of_product_steps [OF low _ f10 twice n w]) simp_all
    have b': "10 \<le> w \<and> 2 * w \<le> s"
      using b by (intro int_of_product_steps [OF low _ f10 twice w s]) simp_all
    have c': "10 \<le> s \<and> 2 * s \<le> h"
      using c by (intro int_of_product_steps [OF low _ f10 twice s h]) simp_all
    from a' b' c' show ?thesis by simp
  qed
qed

lemma thresholds_defined:
  assumes "0 \<le> get_domain_risk data"
  shows "\<exists>n w s h. adjusted_thresholds data = Inr (n, w, s, h)"
proof -
  let ?m = "risk_multiplier data"
  have m: "1 / 2 \<le> ?m" "?m \<le> 1"
    using assms risk_multiplier_bounds [of data] by blast+
  have first: "\<exists>k. int_of_product (of_int base) ?m = Inr k \<and> k \<le> 600 \<and> 15 \<le> k"
    if "30 \<le> base" and "base \<le> 600" for base :: int
  proof -
    have b: "(30::real) \<le> of_int base" "real_of_int base \<le> 600" using that by simp_all
    have lo: "15 \<le> real_of_int base * ?m"
    proof -
      have "30 * (1 / 2) \<le> real_of_int base * ?m" using b m by (intro mult_mono) simp_all
      then show ?thesis by simp
    qed
    have hi: "real_of_int base * ?m \<le> 600"
    proof -
      have "real_of_int base * ?m \<le> 600 * 1" using b m by (intro mult_mono) simp_all
      then show ?thesis by simp
    qed
    from int_of_product_small [of "of_int base" ?m] lo hi
    obtain k where k: "int_of_product (of_int base) ?m = Inr k" "k \<le> 600" by auto
    have "min_normal \<le> 15" using min_normal_bounds by linarith
    from fl_mono [OF this lo] have "15 \<le> fl (real_of_int base * ?m)" by (simp add: fl_15)
    moreover have "k = py_int (fl (real_of_int base * ?m))"
      using k(1) by (simp add: int_of_product_def Let_def split: if_splits)
    ultimately have "15 \<le> k" by (simp add: py_int_def le_floor_iff)
    with k show ?thesis by blast
  qed
  have second: "\<exists>j. int_of_product (of_int k) (fl 0.7) = Inr j" if "15 \<le> k" and "k \<le> 600" for k :: int
  proof -
    have k: "(15::real) \<le> of_int k" "real_of_int k \<le> 600" using that by simp_all
    have "15 * (2 / 3) \<le> real_of_int k * fl 0.7"
      using k fl_07_bounds by (intro mult_mono) simp_all
    then have lo: "1 \<le> real_of_int k * fl 0.7" by simp
    have "real_of_int k * fl 0.7 \<le> 600 * 1" using k fl_07_bounds by (intro mult_mono) simp_all
    then have hi: "real_of_int k * fl 0.7 \<le> 600" by simp
    from int_of_product_small [OF lo hi] show ?thesis by blast
  qed
  from first [of NUDGE_THRESHOLD_SECONDS] obtain n1 where
    n1: "int_of_product (of_int NUDGE_THRESHOLD_SECONDS) ?m = Inr n1" "n1 \<le> 600" "15 \<le> n1"
    by (auto simp: NUDGE_THRESHOLD_SECONDS_def)
  from first [of WARN_THRESHOLD_SECONDS] obtain w1 where
    w1: "int_of_product (of_int WARN_THRESHOLD_SECONDS) ?m = Inr w1" "w1 \<le> 600" "15 \<le> w1"
    by (auto simp: WARN_THRESHOLD_SECONDS_def)
  from first [of SOFT_BLOCK_THRESHOLD_SECONDS] obtain s1 where
    s1: "int_of_product (of_int SOFT_BLOCK_THRESHOLD_SECONDS) ?m = Inr s1" "s1 \<le> 600" "15 \<le> s1"
    by (auto simp: SOFT_BLOCK_THRESHOLD_SECONDS_def)
  from first [of HARD_BLOCK_THRESHOLD_SECONDS] obtain h1 where
    h1: "int_of_product (of_int HARD_BLOCK_THRESHOLD_SECONDS) ?m = Inr h1" "h1 \<le> 600" "15 \<le> h1"
    by (auto simp: HARD_BLOCK_THRESHOLD_SECONDS_def)
  from second [OF n1(3,2)] obtain n where n: "int_of_product (of_int n1) (fl 0.7) = Inr n" ..
  from second [OF w1(3,2)] obtain w where w: "int_of_product (of_int w1) (fl 0.7) = Inr w" ..
  from second [OF s1(3,2)] obtain s where s: "int_of_product (of_int s1) (fl 0.7) = Inr s" ..
  from second [OF h1(3,2)] obtain h where h: "int_of_product (of_int h1) (fl 0.7) = Inr h" ..
  show ?thesis
    by (simp add: adjusted_thresholds_def Let_def n1(1) w1(1) s1(1) h1(1) n w s h)
qed

lemma gate_open:
  "get_classification data = ''distraction'' \<Longrightarrow> 0.3 \<le> get_confidence data \<Longrightarrow>
   adjusted_thresholds data = Inr (n, w, s, h) \<Longrightarrow>
   intervention_analyze data =
     Inr (if time_on_current_seconds data \<ge> h
          then \<lparr>should_intervene = True, level = ''hard_block'',
                message = Some (interventions_today data mod HARD_BLOCK_MESSAGES_len,
                                Some (format_duration (time_on_current_seconds data))),
                urgency = 1.0, cooldown_seconds = 0\<rparr>
          else if time_on_current_seconds data \<ge> s
          then \<lparr>should_intervene = True, level = ''soft_block'',
                message = Some (interventions_today data mod SOFT_BLOCK_MESSAGES_len,
                                Some (format_duration (time_on_current_seconds data))),
                urgency = 0.8, cooldown_seconds = 15\<rparr>
          else if time_on_current_seconds data \<ge> w
          then \<lparr>should_intervene = True, level = ''warn'',
                message = Some (interventions_today data mod WARN_MESSAGES_len,
                                Some (format_duration (time_on_current_seconds data))),
                urgency = 0.6, cooldown_seconds = 30\<rparr>
          else if time_on_current_seconds data \<ge> n
          then \<lparr>should_intervene = True, level = ''nudge'',
                message = Some (interventions_today data mod NUDGE_MESSAGES_len, None),
                urgency = 0.3, cooldown_seconds = 60\<rparr>
          else \<lparr>should_intervene = False, level = ''none'', message = None,
                urgency = 0.0,
                cooldown_seconds = max 5 (n - time_on_current_seconds data)\<rparr>)"
  by (simp add: intervention_analyze_def Let_def)

lemma gate_open_error:
  "get_classification data = ''distraction'' \<Longrightarrow> 0.3 \<le> get_confidence data \<Longrightarrow>
   adjusted_thresholds data = Inl e \<Longrightarrow> intervention_analyze data = Inl e"
  by (simp add: intervention_analyze_def Let_def)

lemma level_by_thresholds:
  assumes "get_classification data = ''distraction''" and "0.3 \<le> get_confidence data"
    and "adjusted_thresholds data = Inr (n, w, s, h)"
  shows "\<exists>d. intervention_analyze data = Inr d
           \<and> level d = (if h \<le> time_on_current_seconds data then ''hard_block''
                        else if s \<le> time_on_current_seconds data then ''soft_block''
                        else if w \<le> time_on_current_seconds data then ''warn''
                        else if n \<le> time_on_current_seconds data then ''nudge''
                        else ''none'')
           \<and> (time_on_current_seconds data < n \<longrightarrow>
                level d = ''none'' \<and> \<not> should_intervene d
                \<and> cooldown_seconds d = max 5 (n - time_on_current_seconds data))"
proof -
  from thresholds_ascending [OF assms(3)] have asc: "n \<le> w" "w \<le> s" "s \<le> h" by linarith+
  show ?thesis
    unfolding gate_open [OF assms] using asc by simp
qed

lemma rank_simps:
  "INTERVENTION_LEVELS ''none'' = Some 0" "INTERVENTION_LEVELS ''nudge'' = Some 1"
  "INTERVENTION_LEVELS ''warn'' = Some 2" "INTERVENTION_LEVELS ''soft_block'' = Some 3"
  "INTERVENTION_LEVELS ''hard_block'' = Some 4"
  by (simp_all add: INTERVENTION_LEVELS_def)

lemma gate_time [simp]:
  "get_classification (data\<lparr>time_on_current_seconds := t\<rparr>) = get_classification data"
  "get_confidence (data\<lparr>time_on_current_seconds := t\<rparr>) = get_confidence data"
  "adjusted_thresholds (data\<lparr>time_on_current_seconds := t\<rparr>) = adjusted_thresholds data"
  by (simp_all add: get_classification_def get_confidence_def adjusted_thresholds_def
      risk_multiplier_def get_domain_risk_def split: option.splits)

lemma risk16: "get_domain_risk dwell16 = 0.9"
  by (simp add: get_domain_risk_def dwell16_def)

lemma dwell16_gate:
  "get_classification dwell16 = ''distraction''" "get_confidence dwell16 = 0.8"
  "time_on_current_seconds dwell16 = 16" "\<not> iv_session_active dwell16"
  by (simp_all add: get_classification_def get_confidence_def dwell16_def)

lemma multiplier16: "risk_multiplier dwell16 = 2476979795053773 / 4503599627370496"
  by (simp add: risk_multiplier_def risk16 fl_r9_half fl_r9_mult)

lemma thr16: "adjusted_thresholds dwell16 = Inr (16, 66, 165, 330)"
  by (simp add: adjusted_thresholds_def multiplier16 dwell16_gate int_of_product_def py_int_def
      NUDGE_THRESHOLD_SECONDS_def WARN_THRESHOLD_SECONDS_def SOFT_BLOCK_THRESHOLD_SECONDS_def
      HARD_BLOCK_THRESHOLD_SECONDS_def fl_r9_30 fl_r9_120 fl_r9_300 fl_r9_600)

lemma session62_gate:
  "get_classification session62 = ''distraction''" "get_confidence session62 = 0.8"
  "time_on_current_seconds session62 = 62" "iv_session_active session62"
  "get_domain_risk session62 = 0.5"
  by (simp_all add: get_classification_def get_confidence_def get_domain_risk_def session62_def)

lemma multiplier62: "risk_multiplier session62 = 3 / 4"
  by (simp add: risk_multiplier_def session62_gate fl_r5_half fl_r5_mult)

lemma thr62:
  "adjusted_threshold NUDGE_THRESHOLD_SECONDS session62 = Inr 15"
  "adjusted_threshold WARN_THRESHOLD_SECONDS session62 = Inr 62"
  "adjusted_threshold SOFT_BLOCK_THRESHOLD_SECONDS session62 = Inr 157"
  "adjusted_threshold HARD_BLOCK_THRESHOLD_SECONDS session62 = Inr 315"
  by (simp_all add: adjusted_threshold_def multiplier62 session62_gate int_of_product_def py_int_def
      NUDGE_THRESHOLD_SECONDS_def WARN_THRESHOLD_SECONDS_def SOFT_BLOCK_THRESHOLD_SECONDS_def
      HARD_BLOCK_THRESHOLD_SECONDS_def fl_r5_30 fl_r5_120 fl_r5_300 fl_r5_600
      fl_07 fl_s5_30 fl_s5_120 fl_s5_300 fl_s5_600)

text \<open>
  C3. When the classification is not "distraction" or the confidence is below 0.3, the result
  is level "none", should_intervene false and cooldown 30 seconds. A missing context result,
  a missing classification and a missing confidence read as "neutral" and 0, so such calls
  are gated too.
\<close>

theorem intervention_gate:
  "(get_classification data \<noteq> ''distraction'' \<or> get_confidence data < 0.3 \<longrightarrow>
      (\<exists>d. intervention_analyze data = Inr d
         \<and> level d = ''none'' \<and> \<not> should_intervene d \<and> cooldown_seconds d = 30))
   \<and> (context_result data = None \<longrightarrow>
        get_classification data = ''neutral'' \<and> get_confidence data = 0)
   \<and> (\<forall>c. context_result data = Some c \<and> cf_classification c = None \<longrightarrow>
        get_classification data = ''neutral'')
   \<and> (\<forall>c. context_result data = Some c \<and> cf_confidence c = None \<longrightarrow>
        get_confidence data = 0)"
  by (auto simp add: intervention_analyze_def get_classification_def get_confidence_def)

theorem intervention_gate_witness:
  "get_classification study_page \<noteq> ''distraction''
   \<and> (\<exists>d. intervention_analyze study_page = Inr d
         \<and> level d = ''none'' \<and> \<not> should_intervene d \<and> cooldown_seconds d = 30)"
proof -
  have "get_classification study_page = ''study''"
    by (simp add: get_classification_def study_page_def)
  then have "get_classification study_page \<noteq> ''distraction''" by simp
  with intervention_gate [of study_page] show ?thesis by blast
qed

text \<open>
  C2, as the code has it. For a call with classification "distraction" and confidence at
  least 0.3: the domain risk is 0.5 when the current domain has no entry in
  domain_risk_scores; each base threshold (30, 120, 300, 600 seconds) is multiplied in float
  arithmetic by max(0.5, 1 - risk * 0.5) and truncated to an integer, and when a session is
  active that integer is multiplied in float arithmetic by 0.7 and truncated again; the level
  is the highest of hard_block, soft_block, warn and nudge whose threshold the dwell time
  reaches; below the nudge threshold the result is level "none", should_intervene false and
  cooldown max(5, nudge threshold - dwell time). A product beyond the largest float makes the
  call raise OverflowError, which no risk of 0 or more does.
\<close>

theorem intervention_levels_truncated:
  assumes "get_classification data = ''distraction''" and "0.3 \<le> get_confidence data"
  shows "(\<forall>n w s h.
            adjusted_threshold NUDGE_THRESHOLD_SECONDS data = Inr n
          \<and> adjusted_threshold WARN_THRESHOLD_SECONDS data = Inr w
          \<and> adjusted_threshold SOFT_BLOCK_THRESHOLD_SECONDS data = Inr s
          \<and> adjusted_threshold HARD_BLOCK_THRESHOLD_SECONDS data = Inr h \<longrightarrow>
            (\<exists>d. intervention_analyze data = Inr d
               \<and> level d = (if h \<le> time_on_current_seconds data then ''hard_block''
                            else if s \<le> time_on_current_seconds data then ''soft_block''
                            else if w \<le> time_on_current_seconds data then ''warn''
                            else if n \<le> time_on_current_seconds data then ''nudge''
                            else ''none'')
               \<and> (time_on_current_seconds data < n \<longrightarrow>
                    level d = ''none'' \<and> \<not> should_intervene d
                    \<and> cooldown_seconds d = max 5 (n - time_on_current_seconds data))))
       \<and> (adjusted_threshold NUDGE_THRESHOLD_SECONDS data = Inl OverflowError
          \<or> adjusted_threshold WARN_THRESHOLD_SECONDS data = Inl OverflowError
          \<or> adjusted_threshold SOFT_BLOCK_THRESHOLD_SECONDS data = Inl OverflowError
          \<or> adjusted_threshold HARD_BLOCK_THRESHOLD_SECONDS data = Inl OverflowError \<longrightarrow>
            intervention_analyze data = Inl OverflowError)
       \<and> (0 \<le> get_domain_risk data \<longrightarrow>
            (\<exists>n w s h.
               adjusted_threshold NUDGE_THRESHOLD_SECONDS data = Inr n
             \<and> adjusted_threshold WARN_THRESHOLD_SECONDS data = Inr w
             \<and> adjusted_threshold SOFT_BLOCK_THRESHOLD_SECONDS data = Inr s
             \<and> adjusted_threshold HARD_BLOCK_THRESHOLD_SECONDS data = Inr h))
       \<and> (\<forall>p scores d. pattern_result data = Some p \<and> pf_domain_risk_scores p = Some scores
             \<and> iv_current_domain data = Some d \<and> scores d = None
             \<longrightarrow> get_domain_risk data = 0.5)"
proof -
  let ?N = "adjusted_threshold NUDGE_THRESHOLD_SECONDS data"
  let ?W = "adjusted_threshold WARN_THRESHOLD_SECONDS data"
  let ?S = "adjusted_threshold SOFT_BLOCK_THRESHOLD_SECONDS data"
  let ?H = "adjusted_threshold HARD_BLOCK_THRESHOLD_SECONDS data"
  have risk: "\<forall>p scores d. pattern_result data = Some p \<and> pf_domain_risk_scores p = Some scores
             \<and> iv_current_domain data = Some d \<and> scores d = None
             \<longrightarrow> get_domain_risk data = 0.5"
    by (simp add: get_domain_risk_def)
  have levels: "\<forall>n w s h. ?N = Inr n \<and> ?W = Inr w \<and> ?S = Inr s \<and> ?H = Inr h \<longrightarrow>
            (\<exists>d. intervention_analyze data = Inr d
               \<and> level d = (if h \<le> time_on_current_seconds data then ''hard_block''
                            else if s \<le> time_on_current_seconds data then ''soft_block''
                            else if w \<le> time_on_current_seconds data then ''warn''
                            else if n \<le> time_on_current_seconds data then ''nudge''
                            else ''none'')
               \<and> (time_on_current_seconds data < n \<longrightarrow>
                    level d = ''none'' \<and> \<not> should_intervene d
                    \<and> cooldown_seconds d = max 5 (n - time_on_current_seconds data)))"
  proof (intro allI impI)
    fix n w s h
    assume a: "?N = Inr n \<and> ?W = Inr w \<and> ?S = Inr s \<and> ?H = Inr h"
    then have "adjusted_thresholds data = Inr (n, w, s, h)"
      by (simp add: adjusted_thresholds_by_base)
    from level_by_thresholds [OF assms this]
    show "\<exists>d. intervention_analyze data = Inr d
               \<and> level d = (if h \<le> time_on_current_seconds data then ''hard_block''
                            else if s \<le> time_on_current_seconds data then ''soft_block''
                            else if w \<le> time_on_current_seconds data then ''warn''
                            else if n \<le> time_on_current_seconds data then ''nudge''
                            else ''none'')
               \<and> (time_on_current_seconds data < n \<longrightarrow>
                    level d = ''none'' \<and> \<not> should_intervene d
                    \<and> cooldown_seconds d = max 5 (n - time_on_current_seconds data))" .
  qed
  have raises: "?N = Inl OverflowError \<or> ?W = Inl OverflowError \<or> ?S = Inl OverflowError
          \<or> ?H = Inl OverflowError \<longrightarrow> intervention_analyze data = Inl OverflowError"
  proof
    assume "?N = Inl OverflowError \<or> ?W = Inl OverflowError \<or> ?S = Inl OverflowError
          \<or> ?H = Inl OverflowError"
    then have "\<exists>e. adjusted_thresholds data = Inl e"
      by (cases ?N; cases ?W; cases ?S; cases ?H) (auto simp: adjusted_thresholds_by_base)
    then obtain e where "adjusted_thresholds data = Inl e" ..
    from gate_open_error [OF assms this] show "intervention_analyze data = Inl OverflowError"
      by (rule only_overflow)
  qed
  have defined: "0 \<le> get_domain_risk data \<longrightarrow>
            (\<exists>n w s h. ?N = Inr n \<and> ?W = Inr w \<and> ?S = Inr s \<and> ?H = Inr h)"
  proof
    assume "0 \<le> get_domain_risk data"
    from thresholds_defined [OF this] obtain n w s h
      where "adjusted_thresholds data = Inr (n, w, s, h)" by blast
    then show "\<exists>n w s h. ?N = Inr n \<and> ?W = Inr w \<and> ?S = Inr s \<and> ?H = Inr h"
      by (cases ?N; cases ?W; cases ?S; cases ?H) (auto simp: adjusted_thresholds_by_base)
  qed
  from levels raises defined risk show ?thesis by (intro conjI)
qed

theorem intervention_levels_truncated_witness:
  "get_classification session62 = ''distraction'' \<and> 0.3 \<le> get_confidence session62
   \<and> adjusted_threshold NUDGE_THRESHOLD_SECONDS session62 = Inr 15
   \<and> adjusted_threshold WARN_THRESHOLD_SECONDS session62 = Inr 62
   \<and> adjusted_threshold SOFT_BLOCK_THRESHOLD_SECONDS session62 = Inr 157
   \<and> adjusted_threshold HARD_BLOCK_THRESHOLD_SECONDS session62 = Inr 315
   \<and> (\<exists>d. intervention_analyze session62 = Inr d \<and> level d = ''warn'')"
proof -
  have g: "get_classification session62 = ''distraction''" "0.3 \<le> get_confidence session62"
    by (simp_all add: session62_gate)
  from intervention_levels_truncated [OF g]
  have "\<forall>n w s h.
            adjusted_threshold NUDGE_THRESHOLD_SECONDS session62 = Inr n
          \<and> adjusted_threshold WARN_THRESHOLD_SECONDS session62 = Inr w
          \<and> adjusted_threshold SOFT_BLOCK_THRESHOLD_SECONDS session62 = Inr s
          \<and> adjusted_threshold HARD_BLOCK_THRESHOLD_SECONDS session62 = Inr h \<longrightarrow>
            (\<exists>d. intervention_analyze session62 = Inr d
               \<and> level d = (if h \<le> time_on_current_seconds session62 then ''hard_block''
                            else if s \<le> time_on_current_seconds session62 then ''soft_block''
                            else if w \<le> time_on_current_seconds session62 then ''warn''
                            else if n \<le> time_on_current_seconds session62 then ''nudge''
                            else ''none''))"
    by blast
  then have "\<exists>d. intervention_analyze session62 = Inr d
               \<and> level d = (if 315 \<le> time_on_current_seconds session62 then ''hard_block''
                            else if 157 \<le> time_on_current_seconds session62 then ''soft_block''
                            else if 62 \<le> time_on_current_seconds session62 then ''warn''
                            else if 15 \<le> time_on_current_seconds session62 then ''nudge''
                            else ''none'')"
    using thr62 by blast
  then show ?thesis using g thr62 by (simp add: session62_gate)
qed

text \<open>
  C2, as the specification words it (thresholds not truncated), fails at a dwell time of 16
  seconds on a domain of risk 0.9 outside a session: the product 30 * 0.55 is 16.5, which 16
  does not reach, while the code compares with the truncated 16 and returns a nudge.
\<close>

theorem untruncated_thresholds_counterexample:
  "get_classification dwell16 = ''distraction'' \<and> 0.3 \<le> get_confidence dwell16
   \<and> (\<exists>d. intervention_analyze dwell16 = Inr d \<and> level d = ''nudge'' \<and> should_intervene d)
   \<and> claimed_level dwell16 = ''none''"
proof -
  have g: "get_classification dwell16 = ''distraction''" "0.3 \<le> get_confidence dwell16"
    by (simp_all add: dwell16_gate)
  have l: "\<exists>d. intervention_analyze dwell16 = Inr d \<and> level d = ''nudge'' \<and> should_intervene d"
    unfolding gate_open [OF g thr16] by (simp add: dwell16_gate)
  have c: "claimed_level dwell16 = ''none''"
    by (simp add: claimed_level_def claimed_threshold_def risk16 dwell16_gate
        NUDGE_THRESHOLD_SECONDS_def WARN_THRESHOLD_SECONDS_def
        SOFT_BLOCK_THRESHOLD_SECONDS_def HARD_BLOCK_THRESHOLD_SECONDS_def)
  show ?thesis using g l c by simp
qed

text \<open>
  C10. With the context result (classification "distraction", confidence at least 0.3), the
  pattern result, the domain, the session flag and the interventions count fixed, a longer
  dwell time never gives a lower level in the order of \<open>INTERVENTION_LEVELS\<close>
  (none, nudge, warn, soft_block, hard_block), and the four adjusted thresholds stay in
  strictly ascending order after the float multiplications and the truncations. The only
  other outcome is that the threshold products exceed the largest float and both calls raise
  OverflowError, which no risk of 0 or more does.
\<close>

theorem level_monotone_in_dwell:
  assumes "get_classification data = ''distraction''" and "0.3 \<le> get_confidence data"
    and "t1 \<le> t2"
  shows "((\<exists>n w s h d1 d2 r1 r2.
              adjusted_thresholds data = Inr (n, w, s, h) \<and> n < w \<and> w < s \<and> s < h
            \<and> intervention_analyze (data\<lparr>time_on_current_seconds := t1\<rparr>) = Inr d1
            \<and> intervention_analyze (data\<lparr>time_on_current_seconds := t2\<rparr>) = Inr d2
            \<and> INTERVENTION_LEVELS (level d1) = Some r1
            \<and> INTERVENTION_LEVELS (level d2) = Some r2
            \<and> r1 \<le> r2)
         \<or> (adjusted_thresholds data = Inl OverflowError
            \<and> intervention_analyze (data\<lparr>time_on_current_seconds := t1\<rparr>) = Inl OverflowError
            \<and> intervention_analyze (data\<lparr>time_on_current_seconds := t2\<rparr>) = Inl OverflowError))
       \<and> (0 \<le> get_domain_risk data \<longrightarrow> adjusted_thresholds data \<noteq> Inl OverflowError)"
proof -
  have no_raise: "0 \<le> get_domain_risk data \<longrightarrow> adjusted_thresholds data \<noteq> Inl OverflowError"
    using thresholds_defined [of data] by auto
  have main: "(\<exists>n w s h d1 d2 r1 r2.
              adjusted_thresholds data = Inr (n, w, s, h) \<and> n < w \<and> w < s \<and> s < h
            \<and> intervention_analyze (data\<lparr>time_on_current_seconds := t1\<rparr>) = Inr d1
            \<and> intervention_analyze (data\<lparr>time_on_current_seconds := t2\<rparr>) = Inr d2
            \<and> INTERVENTION_LEVELS (level d1) = Some r1
            \<and> INTERVENTION_LEVELS (level d2) = Some r2
            \<and> r1 \<le> r2)
         \<or> (adjusted_thresholds data = Inl OverflowError
            \<and> intervention_analyze (data\<lparr>time_on_current_seconds := t1\<rparr>) = Inl OverflowError
            \<and> intervention_analyze (data\<lparr>time_on_current_seconds := t2\<rparr>) = Inl OverflowError)"
  proof (cases "adjusted_thresholds data")
    case (Inl e)
    then have o: "adjusted_thresholds data = Inl OverflowError" by (rule only_overflow)
    have "intervention_analyze (data\<lparr>time_on_current_seconds := t\<rparr>) = Inl OverflowError" for t
      using assms(1,2) o by (intro gate_open_error) simp_all
    with o show ?thesis by blast
  next
    case (Inr q)
    obtain n w s h where q: "q = (n, w, s, h)" by (cases q)
    have thr: "adjusted_thresholds data = Inr (n, w, s, h)" using Inr q by simp
    from thresholds_ascending [OF thr] have asc: "n < w" "w < s" "s < h" by linarith+
    define lev where "lev = (\<lambda>t::int. if h \<le> t then ''hard_block'' else if s \<le> t then ''soft_block''
                             else if w \<le> t then ''warn'' else if n \<le> t then ''nudge'' else ''none'')"
    have at: "\<exists>d. intervention_analyze (data\<lparr>time_on_current_seconds := t\<rparr>) = Inr d
                 \<and> level d = lev t" for t
    proof -
      have "adjusted_thresholds (data\<lparr>time_on_current_seconds := t\<rparr>) = Inr (n, w, s, h)"
        using thr by simp
      from level_by_thresholds [OF _ _ this] assms(1,2) obtain d
        where "intervention_analyze (data\<lparr>time_on_current_seconds := t\<rparr>) = Inr d"
          and "level d = (if h \<le> t then ''hard_block'' else if s \<le> t then ''soft_block''
                          else if w \<le> t then ''warn'' else if n \<le> t then ''nudge''
                          else ''none'')"
        by (auto cong: if_cong)
      then show ?thesis unfolding lev_def by blast
    qed
    from at [of t1] obtain d1 where
      d1: "intervention_analyze (data\<lparr>time_on_current_seconds := t1\<rparr>) = Inr d1" "level d1 = lev t1"
      by blast
    from at [of t2] obtain d2 where
      d2: "intervention_analyze (data\<lparr>time_on_current_seconds := t2\<rparr>) = Inr d2" "level d2 = lev t2"
      by blast
    have "\<exists>r1 r2. INTERVENTION_LEVELS (lev t1) = Some r1 \<and> INTERVENTION_LEVELS (lev t2) = Some r2
            \<and> r1 \<le> r2"
      unfolding lev_def using \<open>t1 \<le> t2\<close> by (simp add: rank_simps)
    then obtain r1 r2 where "INTERVENTION_LEVELS (level d1) = Some r1"
      "INTERVENTION_LEVELS (level d2) = Some r2" "r1 \<le> r2"
      using d1(2) d2(2) by auto
    with thr asc d1(1) d2(1) show ?thesis by blast
  qed
  from main no_raise show ?thesis by (rule conjI)
qed

theorem level_monotone_in_dwell_witness:
  "get_classification dwell16 = ''distraction'' \<and> 0.3 \<le> get_confidence dwell16
   \<and> (16::int) \<le> 130
   \<and> adjusted_thresholds dwell16 = Inr (16, 66, 165, 330)
   \<and> (\<exists>d1 d2. intervention_analyze (dwell16\<lparr>time_on_current_seconds := 16\<rparr>) = Inr d1
        \<and> intervention_analyze (dwell16\<lparr>time_on_current_seconds := 130\<rparr>) = Inr d2
        \<and> INTERVENTION_LEVELS (level d1) = Some 1
        \<and> INTERVENTION_LEVELS (level d2) = Some 2)"
proof -
  have g: "get_classification dwell16 = ''distraction''" "0.3 \<le> get_confidence dwell16"
    by (simp_all add: dwell16_gate)
  have le: "(16::int) \<le> 130" by simp
  have a: "\<exists>d. intervention_analyze (dwell16\<lparr>time_on_current_seconds := 16\<rparr>) = Inr d
             \<and> level d = ''nudge''"
    using g thr16 by (subst gate_open [where n = 16 and w = 66 and s = 165 and h = 330]) simp_all
  have b: "\<exists>d. intervention_analyze (dwell16\<lparr>time_on_current_seconds := 130\<rparr>) = Inr d
             \<and> level d = ''warn''"
    using g thr16 by (subst gate_open [where n = 16 and w = 66 and s = 165 and h = 330]) simp_all
  from level_monotone_in_dwell [OF g le] have "adjusted_thresholds dwell16 \<noteq> Inl OverflowError"
    by (simp add: risk16)
  then show ?thesis using g a b by (auto simp: rank_simps thr16)
qed


section \<open>Pattern agent: properties\<close>

lemma dict_get_dict_add:
  "dict_get (dict_add k v d) k' = (if k' = k then dict_get d k + v else dict_get d k')"
  by (induction d) auto

lemma keys_dict_add: "fst ` set (dict_add k v d) = insert k (fst ` set d)"
proof (induction d)
  case Nil
  then show ?case by simp
next
  case (Cons e d)
  obtain k' c where e: "e = (k', c)" by (cases e)
  show ?case
  proof (cases "k' = k")
    case True
    then show ?thesis by (simp add: e)
  next
    case False
    then show ?thesis using Cons.IH by (simp add: e insert_commute)
  qed
qed

lemma distinct_dict_add: "distinct (map fst d) \<Longrightarrow> distinct (map fst (dict_add k v d))"
proof (induction d)
  case Nil
  then show ?case by simp
next
  case (Cons e d)
  obtain k' c where e: "e = (k', c)" by (cases e)
  show ?case
  proof (cases "k' = k")
    case True
    with Cons e show ?thesis by simp
  next
    case False
    have "k' \<notin> fst ` set (dict_add k v d)"
      using Cons.prems e False by (simp add: keys_dict_add)
    with Cons e False show ?thesis by simp
  qed
qed

lemma dict_get_entry: "distinct (map fst d) \<Longrightarrow> (k, c) \<in> set d \<Longrightarrow> dict_get d k = c"
  by (induction d) (auto simp: rev_image_eqI)

lemma fold_dict_add:
  "dict_get (fold (\<lambda>k. dict_add k 1) ks d) k = dict_get d k + int (count_list ks k)"
  by (induction ks arbitrary: d) (auto simp: dict_get_dict_add)

lemma fold_dict_add_distinct:
  "distinct (map fst d) \<Longrightarrow> distinct (map fst (fold (\<lambda>k. dict_add k 1) ks d))"
  by (induction ks arbitrary: d) (auto simp: distinct_dict_add)

lemma fold_dict_add_keys:
  "fst ` set (fold (\<lambda>k. dict_add k 1) ks d) = set ks \<union> fst ` set d"
  by (induction ks arbitrary: d) (simp_all add: keys_dict_add)

lemma count_all_entry:
  assumes "(k, c) \<in> set (count_all ks)"
  shows "c = int (count_list ks k)" and "k \<in> set ks"
proof -
  have "distinct (map fst (count_all ks))"
    by (simp add: count_all_def fold_dict_add_distinct)
  then have "dict_get (count_all ks) k = c" using assms by (rule dict_get_entry)
  then show "c = int (count_list ks k)" by (simp add: count_all_def fold_dict_add)
  have "k \<in> fst ` set (count_all ks)" using assms by force
  then show "k \<in> set ks" by (simp add: count_all_def fold_dict_add_keys)
qed

lemma count_all_has_entry:
  assumes "k \<in> set ks"
  shows "(k, int (count_list ks k)) \<in> set (count_all ks)"
proof -
  have "k \<in> fst ` set (count_all ks)"
    using assms by (simp add: count_all_def fold_dict_add_keys)
  then obtain c where c: "(k, c) \<in> set (count_all ks)" by force
  then show ?thesis using count_all_entry(1) [OF c] by simp
qed

lemma count_list_filter: "count_list (filter P xs) k = (if P k then count_list xs k else 0)"
  by (induction xs) auto

lemma most_common_subset: "set (most_common n d) \<subseteq> set d"
  unfolding most_common_def by (metis set_take_subset set_sort)

lemma most_common_length: "length (most_common n d) \<le> n"
  by (simp add: most_common_def)

lemma most_common_sorted:
  "sorted (map (\<lambda>(k, c). - c) (most_common n d))"
  unfolding most_common_def by (simp add: sorted_wrt_take take_map [symmetric])

lemma most_common_top:
  assumes "(k, c) \<in> set d" and "(k, c) \<notin> set (most_common n d)"
  shows "length (most_common n d) = n \<and> (\<forall>(k', c') \<in> set (most_common n d). c \<le> c')"
proof -
  define S where "S = sort_key (\<lambda>(k, c). - c) d"
  have srt: "sorted (map (\<lambda>(k, c). - c) (take n S @ drop n S))"
    by (simp add: S_def)
  have "(k, c) \<in> set S" using assms(1) by (simp add: S_def)
  then have "(k, c) \<in> set (take n S) \<union> set (drop n S)"
    by (metis append_take_drop_id set_append)
  then have dr: "(k, c) \<in> set (drop n S)" using assms(2) by (simp add: most_common_def S_def)
  then have "n < length S" by (cases "n < length S") auto
  then have len: "length (take n S) = n" by simp
  have "\<forall>x \<in> set (take n S). \<forall>y \<in> set (drop n S). (\<lambda>(k, c). - c) x \<le> (\<lambda>(k, c). - c) y"
    using srt unfolding map_append sorted_append by auto
  then have "\<forall>(k', c') \<in> set (take n S). c \<le> c'" using dr by fastforce
  with len show ?thesis by (simp add: most_common_def S_def)
qed

lemma reported_length: "length (reported n m counter) \<le> n"
proof -
  have "length (reported n m counter) \<le> length (most_common n counter)"
    by (simp add: reported_def)
  also have "\<dots> \<le> n" by (rule most_common_length)
  finally show ?thesis .
qed

lemma reported_sound:
  assumes "k \<in> set (reported n m (count_all (filter P ks)))"
  shows "P k \<and> m \<le> int (count_list ks k)"
proof -
  from assms obtain c where mc: "(k, c) \<in> set (most_common n (count_all (filter P ks)))"
    and c: "m \<le> c"
    by (auto simp: reported_def)
  from mc have e: "(k, c) \<in> set (count_all (filter P ks))"
    using most_common_subset by blast
  have "k \<in> set (filter P ks)" using count_all_entry(2) [OF e] .
  then have P: "P k" by simp
  have "c = int (count_list (filter P ks) k)" using count_all_entry(1) [OF e] .
  with P c show ?thesis by (simp add: count_list_filter)
qed

lemma reported_top:
  assumes P: "P k" and m: "m \<le> int (count_list ks k)" and pos: "1 \<le> m"
    and out: "k \<notin> set (reported n m (count_all (filter P ks)))"
  shows "length (reported n m (count_all (filter P ks))) = n
         \<and> (\<forall>k' \<in> set (reported n m (count_all (filter P ks))). count_list ks k \<le> count_list ks k')"
proof -
  let ?d = "count_all (filter P ks)"
  let ?c = "int (count_list ks k)"
  have cnt: "count_list (filter P ks) k = count_list ks k" using P by (simp add: count_list_filter)
  have "0 < count_list (filter P ks) k" using m pos cnt by linarith
  then have "k \<in> set (filter P ks)" using count_list_0_iff [of "filter P ks" k] by linarith
  then have e: "(k, ?c) \<in> set ?d" using count_all_has_entry [of k "filter P ks"] cnt by simp
  have notin: "(k, ?c) \<notin> set (most_common n ?d)"
  proof
    assume "(k, ?c) \<in> set (most_common n ?d)"
    then have "k \<in> set (reported n m ?d)" using m by (force simp: reported_def)
    with out show False by simp
  qed
  from most_common_top [OF e notin]
  have len: "length (most_common n ?d) = n"
    and top: "\<forall>(k', c') \<in> set (most_common n ?d). ?c \<le> c'" by simp_all
  have all: "filter (\<lambda>(k, c). c \<ge> m) (most_common n ?d) = most_common n ?d"
    using top m by (auto simp: filter_id_conv)
  have r: "reported n m ?d = map fst (most_common n ?d)" by (simp add: reported_def all)
  have "\<forall>k' \<in> set (reported n m ?d). count_list ks k \<le> count_list ks k'"
  proof
    fix k' assume "k' \<in> set (reported n m ?d)"
    then obtain c' where mc: "(k', c') \<in> set (most_common n ?d)" unfolding r by auto
    then have e': "(k', c') \<in> set ?d" using most_common_subset by blast
    have "c' = int (count_list (filter P ks) k')" using count_all_entry(1) [OF e'] .
    moreover have "k' \<in> set (filter P ks)" using count_all_entry(2) [OF e'] .
    ultimately have "c' = int (count_list ks k')" by (simp add: count_list_filter)
    moreover have "?c \<le> c'" using top mc by auto
    ultimately show "count_list ks k \<le> count_list ks k'" by simp
  qed
  with len r show ?thesis by simp
qed

lemma chains_unfold:
  "detect_distraction_chains hn events =
     (if length (distraction_sequence hn events) < 2 then []
      else map (\<lambda>(a, b, c). [a, b, c])
             (reported 5 2 (count_all (filter (\<lambda>(a, b, c). \<not> (a = b \<and> b = c))
                (triples_of (distraction_sequence hn events)))))
         @ map (\<lambda>(a, b). [a, b])
             (reported 5 3 (count_all (filter (\<lambda>(a, b). a \<noteq> b)
                (pairs_of (distraction_sequence hn events))))))"
  by (simp add: detect_distraction_chains_def Let_def reported_def case_prod_unfold comp_def)

lemma short_sequence: "length xs < 2 \<Longrightarrow> pairs_of xs = [] \<and> triples_of xs = []"
  by (cases xs rule: pairs_of.cases) auto

lemma spiral_sequence:
  "distraction_sequence hn spiral =
     [''youtube.com'', ''reddit.com'', ''instagram.com'',
      ''youtube.com'', ''reddit.com'', ''instagram.com'',
      ''youtube.com'', ''reddit.com'', ''instagram.com'']"
  by (simp add: distraction_sequence_def spiral_def visit_def List.map_filter_simps
      distraction_domain_def event_domain_def str_or_def)

lemma spiral_chains:
  "detect_distraction_chains hn spiral =
     [[''youtube.com'', ''reddit.com'', ''instagram.com''],
      [''reddit.com'', ''instagram.com'', ''youtube.com''],
      [''instagram.com'', ''youtube.com'', ''reddit.com''],
      [''youtube.com'', ''reddit.com''],
      [''reddit.com'', ''instagram.com'']]"
  by (simp add: detect_distraction_chains_def spiral_sequence count_all_def most_common_def)

lemma distraction_domain_Some:
  "distraction_domain hn ev = Some d \<longleftrightarrow>
     event_domain hn ev = Some d \<and> d \<noteq> [] \<and> (ev_is_distraction ev \<or> d \<in> PA_DISTRACTION_DOMAINS)"
  by (auto simp: distraction_domain_def split: option.splits)

lemma distraction_sequence_subseq:
  "subseq (distraction_sequence hn events) (List.map_filter (event_domain hn) events)"
proof (induction events)
  case Nil
  then show ?case by (simp add: distraction_sequence_def List.map_filter_simps)
next
  case (Cons ev events)
  show ?case
  proof (cases "distraction_domain hn ev")
    case None
    then show ?thesis
      using Cons.IH
      by (cases "event_domain hn ev")
        (auto simp: distraction_sequence_def List.map_filter_simps intro: list_emb_Cons)
  next
    case (Some d)
    then have "event_domain hn ev = Some d" by (simp add: distraction_domain_Some)
    with Some show ?thesis
      using Cons.IH by (simp add: distraction_sequence_def List.map_filter_simps)
  qed
qed

lemma distraction_sequence_set:
  "set (distraction_sequence hn events) =
     {d. \<exists>ev \<in> set events. event_domain hn ev = Some d \<and> d \<noteq> []
            \<and> (ev_is_distraction ev \<or> d \<in> PA_DISTRACTION_DOMAINS)}"
proof (induction events)
  case Nil
  then show ?case by (simp add: distraction_sequence_def List.map_filter_simps)
next
  case (Cons ev events)
  have step: "distraction_sequence hn (ev # events) =
      (case distraction_domain hn ev of None \<Rightarrow> distraction_sequence hn events
       | Some d \<Rightarrow> d # distraction_sequence hn events)"
    by (simp add: distraction_sequence_def List.map_filter_simps split: option.splits)
  show ?case
  proof (cases "distraction_domain hn ev")
    case None
    then have "\<forall>d. \<not> (event_domain hn ev = Some d \<and> d \<noteq> []
            \<and> (ev_is_distraction ev \<or> d \<in> PA_DISTRACTION_DOMAINS))"
      using distraction_domain_Some [of hn ev] by simp
    then show ?thesis using None Cons.IH by (auto simp: step)
  next
    case (Some d)
    then have d: "event_domain hn ev = Some d \<and> d \<noteq> []
            \<and> (ev_is_distraction ev \<or> d \<in> PA_DISTRACTION_DOMAINS)"
      by (simp add: distraction_domain_Some)
    then show ?thesis using Some Cons.IH by (auto simp: step)
  qed
qed

text \<open>
  C7. On every event history the chain miner works on the domain sequence of the distraction
  events, in their order: a subsequence of the events' domains that holds exactly the
  non-empty domains of the events flagged as distraction or on a distraction domain. Its result is a list of trigrams followed by a list of bigrams, at
  most five of each. A reported trigram does not collapse to one domain and occurs at least
  twice in the sequence; a reported bigram is no self-loop and occurs at least three times.
  The reported ones are the most frequent: a qualifying trigram (bigram) is left out only when
  five are reported and each of them occurs at least as often. On the nine events youtube,
  reddit, instagram repeated three times the first reported chain is the trigram
  youtube, reddit, instagram, which occurs at least twice.
\<close>

theorem distraction_chains_reported:
  "(\<exists>sequence T B.
       sequence = distraction_sequence hn events
     \<and> subseq sequence (List.map_filter (event_domain hn) events)
     \<and> set sequence =
          {d. \<exists>ev \<in> set events. event_domain hn ev = Some d \<and> d \<noteq> []
                 \<and> (ev_is_distraction ev \<or> d \<in> PA_DISTRACTION_DOMAINS)}
     \<and> detect_distraction_chains hn events = map (\<lambda>(a, b, c). [a, b, c]) T @ map (\<lambda>(a, b). [a, b]) B
     \<and> length T \<le> 5 \<and> length B \<le> 5
     \<and> (\<forall>t \<in> set T. \<not> (fst t = fst (snd t) \<and> fst (snd t) = snd (snd t))
                      \<and> 2 \<le> count_list (triples_of sequence) t)
     \<and> (\<forall>p \<in> set B. fst p \<noteq> snd p \<and> 3 \<le> count_list (pairs_of sequence) p)
     \<and> (\<forall>t. \<not> (fst t = fst (snd t) \<and> fst (snd t) = snd (snd t))
              \<and> 2 \<le> count_list (triples_of sequence) t \<and> t \<notin> set T
            \<longrightarrow> length T = 5
                \<and> (\<forall>t' \<in> set T. count_list (triples_of sequence) t \<le> count_list (triples_of sequence) t'))
     \<and> (\<forall>p. fst p \<noteq> snd p \<and> 3 \<le> count_list (pairs_of sequence) p \<and> p \<notin> set B
            \<longrightarrow> length B = 5
                \<and> (\<forall>p' \<in> set B. count_list (pairs_of sequence) p \<le> count_list (pairs_of sequence) p')))
   \<and> hd (detect_distraction_chains hn spiral) = [''youtube.com'', ''reddit.com'', ''instagram.com'']
   \<and> 2 \<le> count_list (triples_of (distraction_sequence hn spiral))
            (''youtube.com'', ''reddit.com'', ''instagram.com'')"
proof -
  let ?seq = "distraction_sequence hn events"
  let ?P3 = "\<lambda>(a, b, c). \<not> (a = b \<and> b = c)" and ?P2 = "\<lambda>(a, b). a \<noteq> b"
  have general: "\<exists>T B.
       detect_distraction_chains hn events = map (\<lambda>(a, b, c). [a, b, c]) T @ map (\<lambda>(a, b). [a, b]) B
     \<and> length T \<le> 5 \<and> length B \<le> 5
     \<and> (\<forall>t \<in> set T. \<not> (fst t = fst (snd t) \<and> fst (snd t) = snd (snd t))
                      \<and> 2 \<le> count_list (triples_of ?seq) t)
     \<and> (\<forall>p \<in> set B. fst p \<noteq> snd p \<and> 3 \<le> count_list (pairs_of ?seq) p)
     \<and> (\<forall>t. \<not> (fst t = fst (snd t) \<and> fst (snd t) = snd (snd t))
              \<and> 2 \<le> count_list (triples_of ?seq) t \<and> t \<notin> set T
            \<longrightarrow> length T = 5
                \<and> (\<forall>t' \<in> set T. count_list (triples_of ?seq) t \<le> count_list (triples_of ?seq) t'))
     \<and> (\<forall>p. fst p \<noteq> snd p \<and> 3 \<le> count_list (pairs_of ?seq) p \<and> p \<notin> set B
            \<longrightarrow> length B = 5
                \<and> (\<forall>p' \<in> set B. count_list (pairs_of ?seq) p \<le> count_list (pairs_of ?seq) p'))"
  proof (cases "length ?seq < 2")
    case True
    then have "pairs_of ?seq = []" "triples_of ?seq = []" using short_sequence by blast+
    moreover have "detect_distraction_chains hn events = []" using True by (simp add: chains_unfold)
    ultimately show ?thesis
      apply (intro exI [of _ "[]"])
      apply simp
      done
  next
    case False
    let ?T = "reported 5 2 (count_all (filter ?P3 (triples_of ?seq)))"
    let ?B = "reported 5 3 (count_all (filter ?P2 (pairs_of ?seq)))"
    have eq: "detect_distraction_chains hn events
                = map (\<lambda>(a, b, c). [a, b, c]) ?T @ map (\<lambda>(a, b). [a, b]) ?B"
      using False by (simp add: chains_unfold)
    have lenT: "length ?T \<le> 5" and lenB: "length ?B \<le> 5" by (rule reported_length)+
    have soundT: "\<forall>t \<in> set ?T. \<not> (fst t = fst (snd t) \<and> fst (snd t) = snd (snd t))
                      \<and> 2 \<le> count_list (triples_of ?seq) t"
    proof
      fix t assume "t \<in> set ?T"
      from reported_sound [OF this] show "\<not> (fst t = fst (snd t) \<and> fst (snd t) = snd (snd t))
                      \<and> 2 \<le> count_list (triples_of ?seq) t"
        by (simp add: case_prod_unfold)
    qed
    have soundB: "\<forall>p \<in> set ?B. fst p \<noteq> snd p \<and> 3 \<le> count_list (pairs_of ?seq) p"
    proof
      fix p assume "p \<in> set ?B"
      from reported_sound [OF this] show "fst p \<noteq> snd p \<and> 3 \<le> count_list (pairs_of ?seq) p"
        by (simp add: case_prod_unfold)
    qed
    have topT: "\<forall>t. \<not> (fst t = fst (snd t) \<and> fst (snd t) = snd (snd t))
              \<and> 2 \<le> count_list (triples_of ?seq) t \<and> t \<notin> set ?T
            \<longrightarrow> length ?T = 5
                \<and> (\<forall>t' \<in> set ?T. count_list (triples_of ?seq) t \<le> count_list (triples_of ?seq) t')"
    proof (intro allI impI)
      fix t
      assume a: "\<not> (fst t = fst (snd t) \<and> fst (snd t) = snd (snd t))
              \<and> 2 \<le> count_list (triples_of ?seq) t \<and> t \<notin> set ?T"
      have "?P3 t" using a by (simp add: case_prod_unfold)
      moreover have "(2::int) \<le> int (count_list (triples_of ?seq) t)" using a by simp
      moreover have "t \<notin> set ?T" using a by simp
      ultimately show "length ?T = 5
                \<and> (\<forall>t' \<in> set ?T. count_list (triples_of ?seq) t \<le> count_list (triples_of ?seq) t')"
        by (intro reported_top) simp_all
    qed
    have topB: "\<forall>p. fst p \<noteq> snd p \<and> 3 \<le> count_list (pairs_of ?seq) p \<and> p \<notin> set ?B
            \<longrightarrow> length ?B = 5
                \<and> (\<forall>p' \<in> set ?B. count_list (pairs_of ?seq) p \<le> count_list (pairs_of ?seq) p')"
    proof (intro allI impI)
      fix p
      assume a: "fst p \<noteq> snd p \<and> 3 \<le> count_list (pairs_of ?seq) p \<and> p \<notin> set ?B"
      have "?P2 p" using a by (simp add: case_prod_unfold)
      moreover have "(3::int) \<le> int (count_list (pairs_of ?seq) p)" using a by simp
      moreover have "p \<notin> set ?B" using a by simp
      ultimately show "length ?B = 5
                \<and> (\<forall>p' \<in> set ?B. count_list (pairs_of ?seq) p \<le> count_list (pairs_of ?seq) p')"
        by (intro reported_top) simp_all
    qed
    show ?thesis
      apply (rule exI [of _ ?T])
      apply (rule exI [of _ ?B])
      using eq lenT lenB soundT soundB topT topB apply (intro conjI)
            apply assumption+
      done
  qed
  have example: "hd (detect_distraction_chains hn spiral) = [''youtube.com'', ''reddit.com'', ''instagram.com'']"
    by (simp add: spiral_chains)
  have cnt: "2 \<le> count_list (triples_of (distraction_sequence hn spiral))
            (''youtube.com'', ''reddit.com'', ''instagram.com'')"
    by (simp add: spiral_sequence)
  from general obtain T B where tb:
       "detect_distraction_chains hn events = map (\<lambda>(a, b, c). [a, b, c]) T @ map (\<lambda>(a, b). [a, b]) B
     \<and> length T \<le> 5 \<and> length B \<le> 5
     \<and> (\<forall>t \<in> set T. \<not> (fst t = fst (snd t) \<and> fst (snd t) = snd (snd t))
                      \<and> 2 \<le> count_list (triples_of ?seq) t)
     \<and> (\<forall>p \<in> set B. fst p \<noteq> snd p \<and> 3 \<le> count_list (pairs_of ?seq) p)
     \<and> (\<forall>t. \<not> (fst t = fst (snd t) \<and> fst (snd t) = snd (snd t))
              \<and> 2 \<le> count_list (triples_of ?seq) t \<and> t \<notin> set T
            \<longrightarrow> length T = 5
                \<and> (\<forall>t' \<in> set T. count_list (triples_of ?seq) t \<le> count_list (triples_of ?seq) t'))
     \<and> (\<forall>p. fst p \<noteq> snd p \<and> 3 \<le> count_list (pairs_of ?seq) p \<and> p \<notin> set B
            \<longrightarrow> length B = 5
                \<and> (\<forall>p' \<in> set B. count_list (pairs_of ?seq) p \<le> count_list (pairs_of ?seq) p'))"
    by (elim exE)
  have first: "\<exists>sequence T B.
       sequence = distraction_sequence hn events
     \<and> subseq sequence (List.map_filter (event_domain hn) events)
     \<and> set sequence =
          {d. \<exists>ev \<in> set events. event_domain hn ev = Some d \<and> d \<noteq> []
                 \<and> (ev_is_distraction ev \<or> d \<in> PA_DISTRACTION_DOMAINS)}
     \<and> detect_distraction_chains hn events = map (\<lambda>(a, b, c). [a, b, c]) T @ map (\<lambda>(a, b). [a, b]) B
     \<and> length T \<le> 5 \<and> length B \<le> 5
     \<and> (\<forall>t \<in> set T. \<not> (fst t = fst (snd t) \<and> fst (snd t) = snd (snd t))
                      \<and> 2 \<le> count_list (triples_of sequence) t)
     \<and> (\<forall>p \<in> set B. fst p \<noteq> snd p \<and> 3 \<le> count_list (pairs_of sequence) p)
     \<and> (\<forall>t. \<not> (fst t = fst (snd t) \<and> fst (snd t) = snd (snd t))
              \<and> 2 \<le> count_list (triples_of sequence) t \<and> t \<notin> set T
            \<longrightarrow> length T = 5
                \<and> (\<forall>t' \<in> set T. count_list (triples_of sequence) t \<le> count_list (triples_of sequence) t'))
     \<and> (\<forall>p. fst p \<noteq> snd p \<and> 3 \<le> count_list (pairs_of sequence) p \<and> p \<notin> set B
            \<longrightarrow> length B = 5
                \<and> (\<forall>p' \<in> set B. count_list (pairs_of sequence) p \<le> count_list (pairs_of sequence) p'))"
    apply (rule exI [of _ ?seq])
    apply (rule exI [of _ T])
    apply (rule exI [of _ B])
    apply (rule conjI)
     apply (rule refl)
    apply (rule conjI)
     apply (rule distraction_sequence_subseq)
    apply (rule conjI)
     apply (rule distraction_sequence_set)
    apply (rule tb)
    done
  from first example cnt show ?thesis by (intro conjI)
qed

theorem distraction_chains_reported_witness:
  "detect_distraction_chains (\<lambda>u. None) spiral =
     [[''youtube.com'', ''reddit.com'', ''instagram.com''],
      [''reddit.com'', ''instagram.com'', ''youtube.com''],
      [''instagram.com'', ''youtube.com'', ''reddit.com''],
      [''youtube.com'', ''reddit.com''],
      [''reddit.com'', ''instagram.com'']]
   \<and> (\<exists>T B. detect_distraction_chains (\<lambda>u. None) spiral
               = map (\<lambda>(a, b, c). [a, b, c]) T @ map (\<lambda>(a, b). [a, b]) B
            \<and> length T \<le> 5 \<and> length B \<le> 5
            \<and> (\<forall>t \<in> set T. 2 \<le> count_list (triples_of (distraction_sequence (\<lambda>u. None) spiral)) t)
            \<and> (\<forall>p \<in> set B. 3 \<le> count_list (pairs_of (distraction_sequence (\<lambda>u. None) spiral)) p))"
proof (rule conjI)
  show "detect_distraction_chains (\<lambda>u. None) spiral =
     [[''youtube.com'', ''reddit.com'', ''instagram.com''],
      [''reddit.com'', ''instagram.com'', ''youtube.com''],
      [''instagram.com'', ''youtube.com'', ''reddit.com''],
      [''youtube.com'', ''reddit.com''],
      [''reddit.com'', ''instagram.com'']]"
    by (rule spiral_chains)
  from distraction_chains_reported [of "\<lambda>u. None" spiral]
  obtain T B where tb:
    "detect_distraction_chains (\<lambda>u. None) spiral
               = map (\<lambda>(a, b, c). [a, b, c]) T @ map (\<lambda>(a, b). [a, b]) B"
    "length T \<le> 5" "length B \<le> 5"
    "\<forall>t \<in> set T. \<not> (fst t = fst (snd t) \<and> fst (snd t) = snd (snd t))
         \<and> 2 \<le> count_list (triples_of (distraction_sequence (\<lambda>u. None) spiral)) t"
    "\<forall>p \<in> set B. fst p \<noteq> snd p
         \<and> 3 \<le> count_list (pairs_of (distraction_sequence (\<lambda>u. None) spiral)) p"
    by (elim conjE exE) simp
  show "\<exists>T B. detect_distraction_chains (\<lambda>u. None) spiral
               = map (\<lambda>(a, b, c). [a, b, c]) T @ map (\<lambda>(a, b). [a, b]) B
            \<and> length T \<le> 5 \<and> length B \<le> 5
            \<and> (\<forall>t \<in> set T. 2 \<le> count_list (triples_of (distraction_sequence (\<lambda>u. None) spiral)) t)
            \<and> (\<forall>p \<in> set B. 3 \<le> count_list (pairs_of (distraction_sequence (\<lambda>u. None) spiral)) p)"
    apply (rule exI [of _ T])
    apply (rule exI [of _ B])
    using tb apply simp
    done
qed

text \<open>
  C9. On an empty event history the pattern analysis returns no patterns, an empty hourly
  vulnerability map, an empty domain risk map and no chains, whatever the library calls
  would answer.
\<close>

theorem empty_history:
  "pattern_analyze hn hr [] =
     \<lparr>patterns = [], hourly_vulnerability = [], domain_risk_scores = [], distraction_chains = []\<rparr>"
  by (simp add: pattern_analyze_def)

section \<open>Context agent: properties of the analysis\<close>

lemma round_half_even_of_int: "round_half_even (of_int n) = n"
  by (simp add: round_half_even_def)

lemma round3_exact: "round3 1 = 1" "round3 (-1) = -1" "round3 0 = 0"
proof -
  have "round_half_even (1 * 1000) = 1000"
    using round_half_even_of_int [of 1000] by simp
  then show "round3 1 = 1" by (simp add: round3_def)
  have "round_half_even (- 1 * 1000) = - 1000"
    using round_half_even_of_int [of "- 1000"] by simp
  then show "round3 (-1) = -1" by (simp add: round3_def)
  show "round3 0 = 0" using round_half_even_of_int [of 0] by (simp add: round3_def)
qed

lemma round3_bounds:
  assumes "-1 \<le> x" and "x \<le> 1"
  shows "-1 \<le> round3 x \<and> round3 x \<le> 1"
proof -
  have "of_int (- 1000) \<le> x * 1000" "x * 1000 \<le> of_int 1000" using assms by simp_all
  from round_half_even_bounds [OF this]
  have "- 1000 \<le> round_half_even (x * 1000)" "round_half_even (x * 1000) \<le> 1000" by simp_all
  then have "- 1000 \<le> real_of_int (round_half_even (x * 1000))"
    "real_of_int (round_half_even (x * 1000)) \<le> 1000" by linarith+
  then show ?thesis by (simp add: round3_def)
qed

lemma adult_domain: "score_domain (Some ''xnxx.com'') = -2"
  by (simp add: ADULT_DOMAINS_def)

text \<open>
  C1. Whenever the domain score or the title score is at most -2.0, the result has
  classification "distraction", context_score -1.0 and confidence 1.0, whatever the study
  topic, the session flag, the recent domains and the scores collected from them are.
\<close>

theorem severe_override:
  assumes "score_domain (input_domain urlparse_hostname data) \<le> -2
           \<or> compute_title_score gemini (input_domain urlparse_hostname data) (input_title data) \<le> -2"
  shows "classification (context_analyze urlparse_hostname gemini data) = ''distraction''
       \<and> context_score (context_analyze urlparse_hostname gemini data) = -1
       \<and> confidence (context_analyze urlparse_hostname gemini data) = 1"
  using assms by (simp add: context_analyze_def Let_def round3_exact)

theorem severe_override_witness:
  "score_domain (input_domain (\<lambda>u. None) (page ''xnxx.com'' ''MIT lecture'')) \<le> -2
   \<and> classification (context_analyze (\<lambda>u. None) None (page ''xnxx.com'' ''MIT lecture'')) = ''distraction''
   \<and> context_score (context_analyze (\<lambda>u. None) None (page ''xnxx.com'' ''MIT lecture'')) = -1
   \<and> confidence (context_analyze (\<lambda>u. None) None (page ''xnxx.com'' ''MIT lecture'')) = 1"
proof -
  have d: "input_domain (\<lambda>u. None) (page ''xnxx.com'' ''MIT lecture'') = Some ''xnxx.com''"
    by (simp add: input_domain_def page_def str_or_def)
  have h: "score_domain (input_domain (\<lambda>u. None) (page ''xnxx.com'' ''MIT lecture'')) \<le> -2"
    by (simp only: d adult_domain)
  from severe_override [of "\<lambda>u. None" "page ''xnxx.com'' ''MIT lecture''" None] h
  show ?thesis by blast
qed


text \<open>
  C4. For every input, every answer of the URL parser and every semantic classifier, the
  returned context_score lies between -1.0 and 1.0.
\<close>

theorem context_score_clamped:
  "-1 \<le> context_score (context_analyze urlparse_hostname gemini data)
   \<and> context_score (context_analyze urlparse_hostname gemini data) \<le> 1"
proof -
  have clamp: "-1 \<le> round3 (max (-1) (min 1 x)) \<and> round3 (max (-1) (min 1 x)) \<le> 1" for x
    by (rule round3_bounds) simp_all
  show ?thesis
    using clamp by (simp add: context_analyze_def Let_def round3_exact)
qed

lemma empty_title_hits:
  "\<not> (\<exists>kw \<in> set ADULT_KEYWORDS. re_search kw [])"
  "count_hits STUDY_KEYWORDS [] = 0"
  "count_hits DISTRACTION_KEYWORDS [] = 0"
  by code_simp+

lemma cat_video_hits:
  "\<not> (\<exists>kw \<in> set ADULT_KEYWORDS. re_search kw ''Funny Cat Compilation 2024'')"
  "count_hits STUDY_KEYWORDS ''Funny Cat Compilation 2024'' = 0"
  "count_hits DISTRACTION_KEYWORDS ''Funny Cat Compilation 2024'' = 2"
  by code_simp+

text \<open>
  C6. For every title the regex title score is -2.0 as soon as a severe keyword pattern
  matches; otherwise, with \<open>s\<close> the number of study patterns and \<open>d\<close> the number of
  distraction patterns that match (without regard to case), it is min(0.7, s * 0.2) when
  \<open>s > d\<close>, max(-0.7, d * -0.2) when \<open>d > s\<close>, and 0.0 on a tie; the empty title scores 0.0.
\<close>

theorem title_score_by_hits:
  "score_title_regex title = title_score_as_specified title \<and> score_title_regex [] = 0"
proof (cases "title = []")
  case True
  then show ?thesis
    using empty_title_hits by (simp add: score_title_regex_def title_score_as_specified_def)
next
  case False
  then show ?thesis
    by (simp add: score_title_regex_def title_score_as_specified_def Let_def)
qed

theorem title_score_by_hits_witness:
  "score_title_regex ''Funny Cat Compilation 2024'' = - 0.4"
  using title_score_by_hits [of "''Funny Cat Compilation 2024''"]
  by (simp add: title_score_as_specified_def cat_video_hits)

lemma youtube_title: "score_title_regex ''YouTube'' = 0"
  by code_simp

lemma youtube_domain: "score_domain (Some ''youtube.com'') = 0"
  by (simp add: ADULT_DOMAINS_def STUDY_DOMAINS_def MIXED_DOMAINS_def)

text \<open>
  C8 does not hold of the code. On the domain youtube.com with the title "YouTube", no study
  topic, no session, no recent domains and no semantic classifier, both collected scores are
  0.0, so the context score is 0.0 and the classification is "neutral", where
  \<^verbatim>\<open>tests/test_context_override.py\<close> expects "distraction".
\<close>

theorem youtube_homepage_neutral:
  "classification (context_analyze urlparse_hostname None (page ''youtube.com'' ''YouTube'')) = ''neutral''
   \<and> context_score (context_analyze urlparse_hostname None (page ''youtube.com'' ''YouTube'')) = 0"
proof -
  have d: "input_domain urlparse_hostname (page ''youtube.com'' ''YouTube'') = Some ''youtube.com''"
    by (simp add: input_domain_def page_def str_or_def)
  have t: "input_title (page ''youtube.com'' ''YouTube'') = ''YouTube''"
    by (simp add: input_title_def page_def)
  have ts: "compute_title_score None (Some ''youtube.com'') ''YouTube'' = 0"
    by (simp add: compute_title_score_def youtube_title)
  have tr: "score_trajectory [] = 0" by (simp add: score_trajectory_def)
  have flags: "study_topic (page ''youtube.com'' ''YouTube'') = None"
    "\<not> session_active (page ''youtube.com'' ''YouTube'')"
    "recent_domains (page ''youtube.com'' ''YouTube'') = []"
    by (simp_all add: page_def)
  have sc: "collect_scores urlparse_hostname None (page ''youtube.com'' ''YouTube'') = [0, 0]"
    by (simp add: collect_scores_def d t ts tr flags youtube_domain Let_def del: score_domain.simps)
  show ?thesis
    by (simp add: context_analyze_def d t ts sc flags youtube_domain Let_def round3_exact
        del: score_domain.simps)
qed


end
